theory Spec2Isabelle
  imports Complex_Main "HOL-Library.Word"
begin

section \<open>JavaScript numbers\<close>

text \<open>
  A JavaScript number is modelled as an exact real, one of the two infinities, or NaN.
  Rounding of IEEE doubles is not modelled; what is modelled is which operations leave
  the finite numbers: \<open>0 / 0\<close> is NaN, \<open>x / 0\<close> is an infinity, and NaN is absorbing.
\<close>

datatype jsnum = Num real | Inf bool | NaN

fun jadd :: "jsnum \<Rightarrow> jsnum \<Rightarrow> jsnum" where
  "jadd (Num a) (Num b) = Num (a + b)"
| "jadd NaN _ = NaN"
| "jadd _ NaN = NaN"
| "jadd (Inf s) (Inf t) = (if s = t then Inf s else NaN)"
| "jadd (Inf s) (Num _) = Inf s"
| "jadd (Num _) (Inf t) = Inf t"

fun jneg :: "jsnum \<Rightarrow> jsnum" where
  "jneg (Num a) = Num (- a)"
| "jneg (Inf s) = Inf (\<not> s)"
| "jneg NaN = NaN"

definition jsub :: "jsnum \<Rightarrow> jsnum \<Rightarrow> jsnum" where
  "jsub a b = jadd a (jneg b)"

fun jmul :: "jsnum \<Rightarrow> jsnum \<Rightarrow> jsnum" where
  "jmul (Num a) (Num b) = Num (a * b)"
| "jmul NaN _ = NaN"
| "jmul _ NaN = NaN"
| "jmul (Inf s) (Inf t) = Inf (s = t)"
| "jmul (Inf s) (Num b) = (if b = 0 then NaN else Inf (s = (0 < b)))"
| "jmul (Num a) (Inf t) = (if a = 0 then NaN else Inf (t = (0 < a)))"

fun jdiv :: "jsnum \<Rightarrow> jsnum \<Rightarrow> jsnum" where
  "jdiv (Num a) (Num b) =
     (if b = 0 then (if a = 0 then NaN else Inf (0 < a)) else Num (a / b))"
| "jdiv NaN _ = NaN"
| "jdiv _ NaN = NaN"
| "jdiv (Inf s) (Inf t) = NaN"
| "jdiv (Inf s) (Num b) = Inf (s = (0 \<le> b))"
| "jdiv (Num a) (Inf t) = Num 0"

fun jsqrt :: "jsnum \<Rightarrow> jsnum" where
  "jsqrt (Num a) = (if a < 0 then NaN else Num (sqrt a))"
| "jsqrt (Inf s) = (if s then Inf True else NaN)"
| "jsqrt NaN = NaN"

text \<open>\<open>Math.min\<close> of two numbers: NaN if either is NaN.\<close>

fun jmin :: "jsnum \<Rightarrow> jsnum \<Rightarrow> jsnum" where
  "jmin (Num a) (Num b) = Num (min a b)"
| "jmin NaN _ = NaN"
| "jmin _ NaN = NaN"
| "jmin (Inf s) (Inf t) = Inf (s \<and> t)"
| "jmin (Inf s) (Num b) = (if s then Num b else Inf False)"
| "jmin (Num a) (Inf t) = (if t then Num a else Inf False)"


text \<open>
  \<open>Array.prototype.sort\<close> with a comparator: the comparator's result \<open>v\<close> puts its first
  argument after its second when \<open>v > 0\<close>; a NaN result counts as \<open>+0\<close>. The sort is
  stable. It is modelled as a stable insertion sort, which for a consistent comparator
  is the result of every conforming sort.
\<close>

fun jpositive :: "jsnum \<Rightarrow> bool" where
  "jpositive (Num v) = (0 < v)"
| "jpositive (Inf s) = s"
| "jpositive NaN = False"

fun js_insert :: "('a \<Rightarrow> 'a \<Rightarrow> jsnum) \<Rightarrow> 'a \<Rightarrow> 'a list \<Rightarrow> 'a list" where
  "js_insert cmp x [] = [x]"
| "js_insert cmp x (y # ys) =
     (if jpositive (cmp x y) then y # js_insert cmp x ys else x # y # ys)"

definition js_sort :: "('a \<Rightarrow> 'a \<Rightarrow> jsnum) \<Rightarrow> 'a list \<Rightarrow> 'a list" where
  "js_sort cmp xs = foldr (js_insert cmp) xs []"

text \<open>
  \<open>xs.slice(0, limit)\<close> for an integer \<open>limit\<close>: a negative limit counts from the end.
\<close>

definition js_slice0 :: "int \<Rightarrow> 'a list \<Rightarrow> 'a list" where
  "js_slice0 limit xs =
     (if limit < 0 then take (length xs - nat (- limit)) xs else take (nat limit) xs)"

section \<open>Text\<close>

text \<open>
  Text is a list of bytes: the ASCII characters, and a character outside ASCII as the
  bytes of its UTF-8 encoding. \<open>toLowerCase\<close> changes the letters A to Z; the word
  characters of \<open>\W\<close> are the ASCII letters, the digits and the underscore, so every
  byte of a character outside ASCII separates words, as that character does. The
  characters outside ASCII that JavaScript counts as white space, or whose lower-case
  form is an ASCII letter, are not modelled.
\<close>

definition is_upper :: "char \<Rightarrow> bool" where
  "is_upper c = (65 \<le> (of_char c :: nat) \<and> (of_char c :: nat) \<le> 90)"

definition is_lower :: "char \<Rightarrow> bool" where
  "is_lower c = (97 \<le> (of_char c :: nat) \<and> (of_char c :: nat) \<le> 122)"

definition is_digit :: "char \<Rightarrow> bool" where
  "is_digit c = (48 \<le> (of_char c :: nat) \<and> (of_char c :: nat) \<le> 57)"

definition is_word_char :: "char \<Rightarrow> bool" where
  "is_word_char c = (is_upper c \<or> is_lower c \<or> is_digit c \<or> c = CHR ''_'')"

definition lower_char :: "char \<Rightarrow> char" where
  "lower_char c = (if is_upper c then char_of ((of_char c :: nat) + 32) else c)"

definition toLowerCase :: "string \<Rightarrow> string" where
  "toLowerCase s = map lower_char s"

text \<open>
  \<open>s.split(/\W+/)\<close>: the fields between maximal runs of non-word characters. A run at
  the start or the end of the text leaves an empty field there, and the empty text has
  the one field \<open>''''\<close>.
\<close>

fun split_fields :: "string \<Rightarrow> bool \<Rightarrow> string \<Rightarrow> string list" where
  "split_fields cur insep [] = [rev cur]"
| "split_fields cur insep (c # cs) =
     (if is_word_char c then split_fields (c # cur) False cs
      else if insep then split_fields cur True cs
      else rev cur # split_fields [] True cs)"

definition split_nonword :: "string \<Rightarrow> string list" where
  "split_nonword s = split_fields [] False s"

section \<open>VectorStore\<close>

record Rule =
  rule_id :: string
  rule_content :: string
  rule_source :: string
  rule_priority :: int
  rule_category :: "string option"
  rule_embedding :: "real list option"

record VectorStore =
  rules :: "Rule list"
  embeddings :: "string \<rightharpoonup> real list"

definition VectorStore_new :: VectorStore where
  "VectorStore_new = \<lparr>rules = [], embeddings = Map.empty\<rparr>"

text \<open>
  \<open>simpleHash\<close>: \<open>hash = ((hash << 5) - hash) + char; hash = hash & hash\<close> keeps the
  hash a signed 32-bit integer; \<open>Math.abs\<close> of it is returned.
\<close>

definition simpleHash :: "string \<Rightarrow> nat" where
  "simpleHash str =
     nat \<bar>sint (foldl (\<lambda>hash c. push_bit 5 hash - hash + of_char c) (0 :: 32 word) str)\<bar>"

definition embedding_words :: "string \<Rightarrow> string list" where
  "embedding_words text = filter (\<lambda>word. 2 < length word) (split_nonword (toLowerCase text))"

definition bump_bucket :: "nat \<Rightarrow> real list \<Rightarrow> string \<Rightarrow> real list" where
  "bump_bucket n embedding word =
     (let hash = simpleHash word mod 100
      in embedding[hash := embedding ! hash + 1 / sqrt (real n)])"

definition generateEmbedding :: "string \<Rightarrow> real list" where
  "generateEmbedding text =
     (let words = embedding_words text;
          embedding = foldl (bump_bucket (length words)) (replicate 100 0) words;
          norm = sqrt (foldl (\<lambda>sum val. sum + val * val) 0 embedding)
      in map (\<lambda>val. if 0 < norm then val / norm else 0) embedding)"

text \<open>
  The loop of \<open>cosineSimilarity\<close> runs over the indices of \<open>a\<close>. Reading \<open>b[i]\<close> past
  the end of \<open>b\<close> gives \<open>undefined\<close>, which turns \<open>dotProduct\<close> and \<open>normB\<close> into NaN
  (the result \<open>None\<close> of the loop).
\<close>

fun cosine_loop :: "real list \<Rightarrow> real list \<Rightarrow> real \<times> real \<times> real \<Rightarrow> (real \<times> real \<times> real) option" where
  "cosine_loop [] b acc = Some acc"
| "cosine_loop (x # a) [] acc = None"
| "cosine_loop (x # a) (y # b) (dotProduct, normA, normB) =
     cosine_loop a b (dotProduct + x * y, normA + x * x, normB + y * y)"

definition cosineSimilarity :: "real list \<Rightarrow> real list \<Rightarrow> jsnum" where
  "cosineSimilarity a b =
     (case cosine_loop a b (0, 0, 0) of
        None \<Rightarrow> NaN
      | Some (dotProduct, normA, normB) \<Rightarrow>
          jdiv (Num dotProduct) (jmul (jsqrt (Num normA)) (jsqrt (Num normB))))"

definition addRule :: "VectorStore \<Rightarrow> Rule \<Rightarrow> VectorStore" where
  "addRule s rule =
     (let embedding = generateEmbedding (rule_content rule)
      in \<lparr>rules = rules s @ [rule\<lparr>rule_embedding := Some embedding\<rparr>],
          embeddings = (embeddings s)(rule_id rule \<mapsto> embedding)\<rparr>)"

definition addRules :: "VectorStore \<Rightarrow> Rule list \<Rightarrow> VectorStore" where
  "addRules s rs = foldl addRule s rs"

definition getAllRules :: "VectorStore \<Rightarrow> Rule list" where
  "getAllRules s = rules s"


type_synonym VectorSearchResult = "Rule \<times> jsnum"

definition similarity :: "VectorSearchResult \<Rightarrow> jsnum" where
  "similarity r = snd r"

definition score_rules :: "real list \<Rightarrow> Rule list \<Rightarrow> VectorSearchResult list" where
  "score_rules queryEmbedding rs =
     concat (map (\<lambda>rule. case rule_embedding rule of
                            None \<Rightarrow> []
                          | Some e \<Rightarrow> [(rule, cosineSimilarity queryEmbedding e)]) rs)"

definition searchSimilar :: "VectorStore \<Rightarrow> string \<Rightarrow> int \<Rightarrow> VectorSearchResult list" where
  "searchSimilar s query limit =
     (let queryEmbedding = generateEmbedding query;
          similarities = score_rules queryEmbedding (rules s)
      in js_slice0 limit (js_sort (\<lambda>a b. jsub (similarity b) (similarity a)) similarities))"

section \<open>Tasks, reminders and the clock\<close>

text \<open>
  A \<open>Date\<close> is its time value: an integer number of milliseconds. The range limit of
  \<open>Date\<close> is not modelled. \<open>new Date(x)\<close> of a fractional \<open>x\<close> truncates towards zero.
  \<open>crypto.randomUUID()\<close> is modelled by its result, a fresh identifier drawn from a
  counter. The clock reads of one call are all taken at the same instant \<open>now\<close>; local
  time is the time value shifted by a fixed offset.
\<close>

type_synonym uuid = nat
type_synonym ref = nat

datatype Priority = High | Medium | Low
datatype Status = Pending | InProgress | Completed
datatype ReminderType = Deadline | Preparation | Followup

record Task =
  task_id :: uuid
  task_content :: string
  task_priority :: Priority
  task_status :: Status
  task_dueDate :: "int option"
  task_reminderTime :: "int option"
  task_reminderSent :: "bool option"
  task_appliedRules :: "string list"
  task_createdAt :: int
  task_updatedAt :: int

record Reminder =
  reminder_id :: uuid
  reminder_taskId :: uuid
  reminder_message :: string
  reminder_scheduledTime :: int
  reminder_priority :: Priority
  reminder_sent :: bool
  reminder_type :: ReminderType

record Env =
  now :: int
  tz_offset :: int
  notification_granted :: bool

record Timer =
  timer_delay :: int
  timer_reminder :: ref

record Notification =
  notification_title :: string
  notification_body :: string
  notification_tag :: uuid

text \<open>
  Reminders are objects: the array \<open>reminders\<close> and the timer callbacks hold references
  to them, and \<open>sendReminder\<close> updates the object it is given. The service's state is the
  objects (\<open>heap\<close>), the array of references, the pending timers by reminder id, and what
  has been written to the sinks (console, browser notifications, dispatched events).
\<close>

record ReminderService =
  heap :: "ref \<rightharpoonup> Reminder"
  next_ref :: ref
  reminders :: "ref list"
  activeTimers :: "uuid \<rightharpoonup> Timer"
  console :: "string list"
  notifications :: "Notification list"
  events :: "ref list"

definition ReminderService_new :: ReminderService where
  "ReminderService_new =
     \<lparr>heap = Map.empty, next_ref = 0, reminders = [], activeTimers = Map.empty,
      console = [], notifications = [], events = []\<rparr>"

definition hours_ms :: "int \<Rightarrow> int" where
  "hours_ms h = h * 60 * 60 * 1000"

definition minutes_ms :: "int \<Rightarrow> int" where
  "minutes_ms m = m * 60 * 1000"

definition date_of :: "rat \<Rightarrow> int" where
  "date_of x = (if 0 \<le> x then \<lfloor>x\<rfloor> else \<lceil>x\<rceil>)"

section \<open>ReminderService\<close>

text \<open>The emoji are written as their UTF-8 bytes.\<close>

definition priorityEmoji :: "Priority \<Rightarrow> string" where
  "priorityEmoji p =
     (case p of
        High \<Rightarrow> [CHR 0xF0, CHR 0x9F, CHR 0x9A, CHR 0xA8]
      | Medium \<Rightarrow> [CHR 0xE2, CHR 0x9A, CHR 0xA0, CHR 0xEF, CHR 0xB8, CHR 0x8F]
      | Low \<Rightarrow> [CHR 0xE2, CHR 0x84, CHR 0xB9, CHR 0xEF, CHR 0xB8, CHR 0x8F])"

definition deadline_message :: "Task \<Rightarrow> string" where
  "deadline_message task =
     priorityEmoji (task_priority task) @ '' Task deadline approaching: '' @ task_content task"

definition preparation_message :: "Task \<Rightarrow> string" where
  "preparation_message task =
     priorityEmoji (task_priority task) @ '' Time to prepare for: '' @ task_content task"

definition followup_message :: "Task \<Rightarrow> string" where
  "followup_message task =
     priorityEmoji (task_priority task) @ '' Follow up needed on: '' @ task_content task"

text \<open>\<open>a || b\<close> on strings: \<open>a\<close> unless it is the empty string.\<close>

definition str_or :: "string \<Rightarrow> string \<Rightarrow> string" where
  "str_or a b = (if a \<noteq> [] then a else b)"

definition generateReminderMessage :: "Task \<Rightarrow> ReminderType \<Rightarrow> string" where
  "generateReminderMessage task type =
     str_or (str_or (preparation_message task) (followup_message task)) (deadline_message task)"

definition priority_upper :: "Priority \<Rightarrow> string" where
  "priority_upper p = (case p of High \<Rightarrow> ''HIGH'' | Medium \<Rightarrow> ''MEDIUM'' | Low \<Rightarrow> ''LOW'')"

definition bell :: string where
  "bell = [CHR 0xF0, CHR 0x9F, CHR 0x94, CHR 0x94]"

definition sendReminder :: "Env \<Rightarrow> ReminderService \<Rightarrow> ref \<Rightarrow> ReminderService" where
  "sendReminder env s r =
     (case heap s r of
        None \<Rightarrow> s
      | Some reminder \<Rightarrow>
          s\<lparr>console := console s @ [bell @ '' REMINDER: '' @ reminder_message reminder],
            notifications :=
              (if notification_granted env
               then notifications s @
                    [\<lparr>notification_title =
                        ''TaskMaster AI - '' @ priority_upper (reminder_priority reminder) @ '' Priority'',
                      notification_body = reminder_message reminder,
                      notification_tag = reminder_taskId reminder\<rparr>]
               else notifications s),
            heap := (heap s)(r \<mapsto> reminder\<lparr>reminder_sent := True\<rparr>),
            activeTimers := (activeTimers s)(reminder_id reminder := None),
            events := events s @ [r]\<rparr>)"

definition scheduleNotification :: "Env \<Rightarrow> ReminderService \<Rightarrow> ref \<Rightarrow> ReminderService" where
  "scheduleNotification env s r =
     (case heap s r of
        None \<Rightarrow> s
      | Some reminder \<Rightarrow>
          (let delay = reminder_scheduledTime reminder - now env
           in if 0 < delay
              then s\<lparr>activeTimers :=
                       (activeTimers s)(reminder_id reminder \<mapsto>
                          \<lparr>timer_delay = delay, timer_reminder = r\<rparr>)\<rparr>
              else if - 300000 < delay then sendReminder env s r
              else s))"

text \<open>A pending timer that fires runs its callback: \<open>sendReminder\<close> on its reminder.\<close>

definition fire_timer :: "Env \<Rightarrow> ReminderService \<Rightarrow> uuid \<Rightarrow> ReminderService" where
  "fire_timer env s rid =
     (case activeTimers s rid of
        None \<Rightarrow> s
      | Some timer \<Rightarrow> sendReminder env s (timer_reminder timer))"

definition scheduleReminder ::
  "Env \<Rightarrow> ReminderService \<Rightarrow> uuid \<Rightarrow> Task \<Rightarrow> int \<Rightarrow> ReminderType \<Rightarrow> ReminderService" where
  "scheduleReminder env s fresh task reminderTime type =
     (let reminder = \<lparr>reminder_id = fresh,
                       reminder_taskId = task_id task,
                       reminder_message = generateReminderMessage task type,
                       reminder_scheduledTime = reminderTime,
                       reminder_priority = task_priority task,
                       reminder_sent = False,
                       reminder_type = type\<rparr>;
          r = next_ref s;
          s1 = s\<lparr>heap := (heap s)(r \<mapsto> reminder), next_ref := Suc r,
                 reminders := reminders s @ [r]\<rparr>
      in scheduleNotification env s1 r)"

definition getAllReminders :: "ReminderService \<Rightarrow> ref list" where
  "getAllReminders s = reminders s"

definition cancelReminder :: "ReminderService \<Rightarrow> uuid \<Rightarrow> ReminderService" where
  "cancelReminder s reminderId =
     s\<lparr>activeTimers := (activeTimers s)(reminderId := None),
       reminders := filter (\<lambda>r. case heap s r of
                                   None \<Rightarrow> False
                                 | Some reminder \<Rightarrow> reminder_id reminder \<noteq> reminderId)
                      (reminders s)\<rparr>"

definition dueDate_or_default :: "Env \<Rightarrow> Task \<Rightarrow> int" where
  "dueDate_or_default env task =
     (case task_dueDate task of Some d \<Rightarrow> d | None \<Rightarrow> now env + hours_ms 24)"

definition effectivePriority :: "int \<Rightarrow> Priority \<Rightarrow> Priority" where
  "effectivePriority timeToDue priority = (if timeToDue \<le> hours_ms 24 then High else priority)"

definition reminderOffset :: "Priority \<Rightarrow> int \<Rightarrow> rat" where
  "reminderOffset effective timeToDue =
     (case effective of
        High \<Rightarrow>
          if timeToDue \<le> hours_ms 2
          then max (of_int timeToDue * (1 / 4)) (of_int (minutes_ms 15))
          else if timeToDue \<le> hours_ms 8 then of_int (hours_ms 1)
          else of_int (hours_ms 2)
      | Medium \<Rightarrow>
          if timeToDue \<le> hours_ms 4
          then max (of_int timeToDue * (1 / 4)) (of_int (hours_ms 1))
          else of_int (hours_ms 4)
      | Low \<Rightarrow>
          if timeToDue \<le> hours_ms 24
          then max (of_int timeToDue * (1 / 2)) (of_int (hours_ms 4))
          else of_int (hours_ms 24))"

definition calculateReminderTime :: "Env \<Rightarrow> Task \<Rightarrow> Priority \<Rightarrow> int" where
  "calculateReminderTime env task priority =
     (let dueDate = dueDate_or_default env task;
          timeToDue = dueDate - now env;
          reminderTime =
            date_of (of_int dueDate
                     - reminderOffset (effectivePriority timeToDue priority) timeToDue)
      in if now env < reminderTime then reminderTime else now env + minutes_ms 5)"

section \<open>Regular expressions\<close>

text \<open>
  The patterns of the agent are built from literals, character classes, bounded and
  unbounded greedy repetition of a class, options, sequence, alternation and capture
  groups. All of them carry the flag \<open>i\<close>: a pattern letter matches both of its cases.
  \<open>rx_match r s caps\<close> lists, in the order in which backtracking tries them, the ways
  \<open>r\<close> matches a prefix of \<open>s\<close>: the rest of the text and the captures made.
\<close>

datatype cls = Digit | Space | AnyChar

datatype rx =
    Lit string
  | Atom cls
  | Many cls nat "nat option"
  | Opt rx
  | Seq rx rx
  | Alt rx rx
  | Grp nat rx

fun cls_match :: "cls \<Rightarrow> char \<Rightarrow> bool" where
  "cls_match Digit c = is_digit c"
| "cls_match Space c = (c \<in> set [CHR 0x20, CHR 0x09, CHR 0x0A, CHR 0x0B, CHR 0x0C, CHR 0x0D])"
| "cls_match AnyChar c = (c \<notin> set [CHR 0x0A, CHR 0x0D])"

type_synonym captures = "(nat \<times> string) list"

text \<open>
  A literal matches at the start of a text when the text begins with its characters, in
  either case; what is left of the text is returned.
\<close>

fun lit_rest :: "string \<Rightarrow> string \<Rightarrow> string option" where
  "lit_rest [] s = Some s"
| "lit_rest (c # cs) [] = None"
| "lit_rest (c # cs) (x # xs) = (if lower_char x = c then lit_rest cs xs else None)"

fun rx_match :: "rx \<Rightarrow> string \<Rightarrow> captures \<Rightarrow> (string \<times> captures) list" where
  "rx_match (Lit l) s caps =
     (case lit_rest l s of None \<Rightarrow> [] | Some rest \<Rightarrow> [(rest, caps)])"
| "rx_match (Atom c) s caps =
     (case s of [] \<Rightarrow> [] | x # xs \<Rightarrow> if cls_match c x then [(xs, caps)] else [])"
| "rx_match (Many c lo hi) s caps =
     (let n = length (takeWhile (cls_match c) s);
          m = (case hi of None \<Rightarrow> n | Some h \<Rightarrow> min n h)
      in map (\<lambda>k. (drop k s, caps)) (rev [lo..<Suc m]))"
| "rx_match (Opt r) s caps = rx_match r s caps @ [(s, caps)]"
| "rx_match (Seq a b) s caps =
     concat (map (\<lambda>p. rx_match b (fst p) (snd p)) (rx_match a s caps))"
| "rx_match (Alt a b) s caps = rx_match a s caps @ rx_match b s caps"
| "rx_match (Grp n r) s caps =
     map (\<lambda>p. (fst p, (n, take (length s - length (fst p)) s) # snd p)) (rx_match r s caps)"

text \<open>\<open>r.test(s)\<close>: whether \<open>r\<close> matches at some position of \<open>s\<close>.\<close>

fun rx_test :: "rx \<Rightarrow> string \<Rightarrow> bool" where
  "rx_test r [] = (case rx_match r [] [] of [] \<Rightarrow> False | m # ms \<Rightarrow> True)"
| "rx_test r (x # xs) =
     (case rx_match r (x # xs) [] of [] \<Rightarrow> rx_test r xs | m # ms \<Rightarrow> True)"

text \<open>\<open>s.match(r)\<close>: the captures of the first match at the leftmost position, if any.\<close>

fun rx_exec :: "rx \<Rightarrow> string \<Rightarrow> captures option" where
  "rx_exec r [] = (case rx_match r [] [] of [] \<Rightarrow> None | m # ms \<Rightarrow> Some (snd m))"
| "rx_exec r (x # xs) =
     (case rx_match r (x # xs) [] of [] \<Rightarrow> rx_exec r xs | m # ms \<Rightarrow> Some (snd m))"

fun alts :: "string \<Rightarrow> string list \<Rightarrow> rx" where
  "alts l [] = Lit l"
| "alts l (k # ks) = Alt (Lit l) (alts k ks)"

definition digits1 :: rx where
  "digits1 = Many Digit 1 None"

definition spaces0 :: rx where
  "spaces0 = Many Space 0 None"

definition hours_opt_s :: rx where
  "hours_opt_s = Seq (Lit ''hour'') (Opt (Lit ''s''))"

text \<open>\<open>parseInt\<close> of a non-empty string of digits.\<close>

definition parseInt :: "string \<Rightarrow> int" where
  "parseInt ds = foldl (\<lambda>n c. 10 * n + (of_char c - 48)) 0 ds"

definition group_text :: "captures \<Rightarrow> nat \<Rightarrow> string option" where
  "group_text caps n = map_of caps n"

section \<open>RAGAgent\<close>

record RAGResponse =
  response :: string
  relevantRules :: "Rule list"
  confidence :: jsnum

record ActionItem =
  item_content :: string
  item_priority :: Priority
  item_dueDate :: "int option"

definition newline :: string where
  "newline = [CHR 0x0A]"

definition dquote :: string where
  "dquote = [CHR 0x22]"

fun join :: "string \<Rightarrow> string list \<Rightarrow> string" where
  "join sep [] = []"
| "join sep [x] = x"
| "join sep (x # y # ys) = x @ sep @ join sep (y # ys)"

definition calculateConfidence :: "VectorSearchResult list \<Rightarrow> jsnum" where
  "calculateConfidence results =
     (if length results = 0 then Num 0
      else (let avgSimilarity =
                  jdiv (foldl (\<lambda>sum r. jadd sum (similarity r)) (Num 0) results)
                       (Num (real (length results)))
            in jmin (jmul avgSimilarity (Num 100)) (Num 100)))"

definition containsTimeConflict :: "string \<Rightarrow> Rule list \<Rightarrow> bool" where
  "containsTimeConflict input rs =
     (let hasTimeReference =
            rx_test (Alt (Seq digits1 (Seq (Lit '':'') digits1))
                    (Alt (Seq digits1 (Seq spaces0 (Grp 1 (alts ''am'' [''pm'']))))
                         (alts ''tomorrow'' [''today'', ''yesterday'']))) input;
          hasConflictRule =
            list_ex (\<lambda>rule. rx_test (alts ''conflict'' [''overlap'', ''same time'', ''schedule''])
                               (rule_content rule)) rs
      in hasTimeReference \<and> hasConflictRule)"

definition priority_rule_rx :: rx where
  "priority_rule_rx = alts ''priority'' [''urgent'', ''important'', ''skip'', ''cancel'']"

definition containsPriorityConflict :: "string \<Rightarrow> Rule list \<Rightarrow> bool" where
  "containsPriorityConflict input rs =
     (let hasPriorityKeywords =
            rx_test (alts ''urgent'' [''important'', ''priority'', ''deadline'']) input;
          hasPriorityRules = list_ex (\<lambda>rule. rx_test priority_rule_rx (rule_content rule)) rs
      in hasPriorityKeywords \<and> hasPriorityRules)"

definition handleTimeConflict :: "string \<Rightarrow> Rule list \<Rightarrow> string" where
  "handleTimeConflict input rs =
     (let conflictRules =
            filter (\<lambda>rule. rx_test (alts ''conflict'' [''overlap'', ''schedule'', ''time''])
                              (rule_content rule)) rs
      in ''Based on your rules: '' @ join ''; '' (map rule_content conflictRules) @ ''. '' @
         newline @
         ''    I recommend checking for schedule conflicts and rescheduling if necessary.'')"

text \<open>
  \<open>reduce\<close> without an initial value throws a TypeError on an empty array, and so does
  reading \<open>content\<close> of \<open>rules[0]\<close> when there is no rule: the result \<open>None\<close>.
\<close>

definition handlePriorityConflict :: "string \<Rightarrow> Rule list \<Rightarrow> string option" where
  "handlePriorityConflict input rs =
     (case filter (\<lambda>rule. rx_test priority_rule_rx (rule_content rule)) rs of
        [] \<Rightarrow> None
      | first # rest \<Rightarrow>
          (let highestPriorityRule =
                 foldl (\<lambda>highest current.
                          if rule_priority highest < rule_priority current then current
                          else highest) first rest
           in Some (''According to your highest priority rule: '' @ dquote @
                    rule_content highestPriorityRule @ dquote @ ''. '' @ newline @
                    ''    This should take precedence over other activities.'')))"

definition generateBasicResponse :: "string \<Rightarrow> Rule list \<Rightarrow> string option" where
  "generateBasicResponse input rs =
     (case rs of
        [] \<Rightarrow> None
      | mostRelevantRule # _ \<Rightarrow>
          Some (''Based on the rule: '' @ dquote @ rule_content mostRelevantRule @ dquote @
                '', here's what I recommend: '' @ newline @
                ''    Follow this guideline for your situation.''))"

definition generateResponse :: "string \<Rightarrow> Rule list \<Rightarrow> string option" where
  "generateResponse input rs =
     (if containsTimeConflict input rs then Some (handleTimeConflict input rs)
      else if containsPriorityConflict input rs then handlePriorityConflict input rs
      else generateBasicResponse input rs)"

definition no_rules_response :: string where
  "no_rules_response =
     ''I don't have any relevant rules for this input. Please add rules that cover this scenario.''"

definition processUserInput :: "VectorStore \<Rightarrow> string \<Rightarrow> RAGResponse option" where
  "processUserInput store input =
     (let found = searchSimilar store input 3
      in if length found = 0
         then Some \<lparr>response = no_rules_response, relevantRules = [], confidence = Num 0\<rparr>
         else (case generateResponse input (map fst found) of
                 None \<Rightarrow> None
               | Some text \<Rightarrow>
                   Some \<lparr>response = text, relevantRules = map fst found,
                         confidence = calculateConfidence found\<rparr>))"

definition today_rx :: rx where
  "today_rx = alts ''today'' [''tonight'', ''this evening'']"

definition in_hours_rx :: rx where
  "in_hours_rx = Seq (Lit ''in '') (Seq digits1 (Seq (Lit '' '') hours_opt_s))"

definition within_hour_rx :: rx where
  "within_hour_rx = Seq (Lit ''within'') (Seq (Many AnyChar 0 None) (Lit ''hour''))"

definition isUrgentTimeframe :: "string \<Rightarrow> bool" where
  "isUrgentTimeframe input =
     list_ex (\<lambda>pattern. rx_test pattern input)
       [today_rx,
        in_hours_rx,
        within_hour_rx,
        Seq (Lit ''by '') (Seq digits1 (Seq (Lit '':'') digits1)),
        Seq (Lit ''before '') digits1,
        alts ''urgent'' [''asap'', ''immediately'', ''critical''],
        Seq (Lit ''due'') (Seq (Many AnyChar 0 None) (Lit ''today'')),
        Seq (Lit ''deadline'') (Seq (Many AnyChar 0 None) (Lit ''today''))]"

text \<open>
  \<open>setHours(h, m, 0, 0)\<close> on a copy of \<open>t\<close>: the start of the local day of \<open>t\<close> plus
  \<open>h\<close> hours and \<open>m\<close> minutes. \<open>setDate(getDate() + 1)\<close> adds one day.
\<close>

definition setHours :: "Env \<Rightarrow> int \<Rightarrow> int \<Rightarrow> int \<Rightarrow> int" where
  "setHours env t h m =
     ((t + tz_offset env) div hours_ms 24) * hours_ms 24 + hours_ms h + minutes_ms m
       - tz_offset env"

definition timeMatch_rx :: rx where
  "timeMatch_rx =
     Seq (alts ''at'' [''by'', ''before''])
       (Seq spaces0
         (Seq (Grp 1 (Many Digit 1 (Some 2)))
           (Seq (Opt (Seq (Lit '':'') (Grp 2 (Many Digit 2 (Some 2)))))
             (Seq spaces0 (Grp 3 (alts ''am'' [''pm'']))))))"

definition hoursMatch_rx :: rx where
  "hoursMatch_rx = Seq (Lit ''in'') (Seq spaces0 (Seq (Grp 1 digits1) (Seq spaces0 hours_opt_s)))"

definition target_of_timeMatch :: "Env \<Rightarrow> captures \<Rightarrow> int" where
  "target_of_timeMatch env timeMatch =
     (let hours0 = parseInt (case group_text timeMatch 1 of Some t \<Rightarrow> t | None \<Rightarrow> []);
          minutes = parseInt (case group_text timeMatch 2 of
                                Some t \<Rightarrow> if t = [] then ''0'' else t
                              | None \<Rightarrow> ''0'');
          ampm = toLowerCase (case group_text timeMatch 3 of Some t \<Rightarrow> t | None \<Rightarrow> []);
          hours1 = (if ampm = ''pm'' \<and> hours0 \<noteq> 12 then hours0 + 12 else hours0);
          hours2 = (if ampm = ''am'' \<and> hours1 = 12 then 0 else hours1);
          targetTime = setHours env (now env) hours2 minutes
      in if targetTime \<le> now env then targetTime + hours_ms 24 else targetTime)"

definition extractDueDate :: "Env \<Rightarrow> string \<Rightarrow> int option" where
  "extractDueDate env input =
     (if rx_test today_rx input then Some (setHours env (now env) 18 0)
      else if rx_test (alts ''tomorrow'' [''next day'']) input then Some (now env + hours_ms 24)
      else (case rx_exec timeMatch_rx input of
              Some timeMatch \<Rightarrow> Some (target_of_timeMatch env timeMatch)
            | None \<Rightarrow>
                (case rx_exec hoursMatch_rx input of
                   Some hoursMatch \<Rightarrow>
                     Some (now env +
                           hours_ms (parseInt (case group_text hoursMatch 1 of
                                                 Some t \<Rightarrow> t | None \<Rightarrow> [])))
                 | None \<Rightarrow> None)))"

definition calculateDefaultPriority :: "Env \<Rightarrow> string \<Rightarrow> int option \<Rightarrow> Priority" where
  "calculateDefaultPriority env input dueDate =
     (if (case dueDate of None \<Rightarrow> False | Some d \<Rightarrow> d - now env \<le> hours_ms 24) then High
      else if rx_test (alts ''urgent'' [''critical'', ''important'', ''asap'', ''emergency'']) input
      then High
      else if rx_test (alts ''meeting'' [''appointment'', ''deadline'', ''client'']) input
      then Medium
      else Low)"

definition urgent_rx :: rx where
  "urgent_rx = alts ''urgent'' [''emergency'', ''asap'', ''critical'', ''immediately'']"

definition or_default :: "int option \<Rightarrow> int \<Rightarrow> int" where
  "or_default suggested d = (case suggested of Some t \<Rightarrow> t | None \<Rightarrow> d)"

text \<open>The items drafted from the action verbs of the response, in the order of the source.\<close>

definition drafted_items :: "Env \<Rightarrow> string \<Rightarrow> bool \<Rightarrow> int option \<Rightarrow> ActionItem list" where
  "drafted_items env text isUrgentTime suggestedDueDate =
     (if rx_test (alts ''reschedule'' [''change time'']) text
      then [\<lparr>item_content = ''Reschedule conflicting appointment'',
             item_priority = (if isUrgentTime then High else Medium),
             item_dueDate = Some (or_default suggestedDueDate (now env + hours_ms 2))\<rparr>]
      else []) @
     (if rx_test (alts ''cancel'' [''skip'']) text
      then [\<lparr>item_content = ''Cancel lower priority activity'',
             item_priority = (if isUrgentTime then High else Medium),
             item_dueDate = Some (or_default suggestedDueDate (now env + hours_ms 1))\<rparr>]
      else []) @
     (if rx_test (alts ''check'' [''verify'']) text
      then [\<lparr>item_content = ''Verify schedule and requirements'',
             item_priority = (if isUrgentTime then High else Medium),
             item_dueDate = Some (or_default suggestedDueDate (now env + hours_ms 4))\<rparr>]
      else [])"

definition extractActionItems :: "Env \<Rightarrow> string \<Rightarrow> string \<Rightarrow> ActionItem list" where
  "extractActionItems env text input =
     (let isUrgentTime = isUrgentTimeframe input;
          suggestedDueDate = extractDueDate env input;
          items0 = drafted_items env text isUrgentTime suggestedDueDate;
          items1 = (if rx_test urgent_rx input
                    then map (\<lambda>item. item\<lparr>item_priority := High,
                                            item_dueDate := Some (now env + minutes_ms 30)\<rparr>) items0
                    else items0);
          items2 = (if isUrgentTime \<or>
                       rx_test (Alt today_rx (Alt in_hours_rx within_hour_rx)) input
                    then map (\<lambda>item.
                                (case item_dueDate item of
                                   None \<Rightarrow>
                                     item\<lparr>item_priority := High,
                                          item_dueDate :=
                                            Some (or_default suggestedDueDate (now env + hours_ms 8))\<rparr>
                                 | Some _ \<Rightarrow> item\<lparr>item_priority := High\<rparr>)) items1
                    else items1)
      in if length items2 = 0
         then [\<lparr>item_content = ''Handle: '' @ input,
                item_priority = calculateDefaultPriority env input suggestedDueDate,
                item_dueDate = Some (or_default suggestedDueDate (now env + hours_ms 24))\<rparr>]
         else items2)"

definition make_task :: "Env \<Rightarrow> RAGResponse \<Rightarrow> uuid \<Rightarrow> ActionItem \<Rightarrow> Task" where
  "make_task env ragResponse fresh item =
     \<lparr>task_id = fresh,
      task_content = item_content item,
      task_priority = item_priority item,
      task_status = Pending,
      task_dueDate = item_dueDate item,
      task_reminderTime = None,
      task_reminderSent = None,
      task_appliedRules = map rule_id (relevantRules ragResponse),
      task_createdAt = now env,
      task_updatedAt = now env\<rparr>"

fun make_tasks :: "Env \<Rightarrow> RAGResponse \<Rightarrow> uuid \<Rightarrow> ActionItem list \<Rightarrow> Task list" where
  "make_tasks env ragResponse fresh [] = []"
| "make_tasks env ragResponse fresh (item # items) =
     make_task env ragResponse fresh item # make_tasks env ragResponse (Suc fresh) items"

text \<open>
  The second loop of \<open>generateTaskRecommendations\<close>: every task with a due date gets its
  reminder time and a reminder, whose id is the next fresh identifier.
\<close>

fun schedule_tasks ::
  "Env \<Rightarrow> ReminderService \<Rightarrow> uuid \<Rightarrow> Task list \<Rightarrow> Task list \<times> ReminderService \<times> uuid" where
  "schedule_tasks env s fresh [] = ([], s, fresh)"
| "schedule_tasks env s fresh (task # tasks) =
     (case task_dueDate task of
        None \<Rightarrow>
          (case schedule_tasks env s fresh tasks of
             (tasks', s', fresh') \<Rightarrow> (task # tasks', s', fresh'))
      | Some _ \<Rightarrow>
          (let reminderTime = calculateReminderTime env task (task_priority task);
               task1 = task\<lparr>task_reminderTime := Some reminderTime\<rparr>;
               s1 = scheduleReminder env s fresh task1 reminderTime Deadline
           in case schedule_tasks env s1 (Suc fresh) tasks of
                (tasks', s', fresh') \<Rightarrow> (task1 # tasks', s', fresh')))"

definition generateTaskRecommendations ::
  "Env \<Rightarrow> VectorStore \<Rightarrow> ReminderService \<Rightarrow> uuid \<Rightarrow> string
     \<Rightarrow> (Task list \<times> ReminderService \<times> uuid) option" where
  "generateTaskRecommendations env store s fresh input =
     (case processUserInput store input of
        None \<Rightarrow> None
      | Some ragResponse \<Rightarrow>
          (let actionItems = extractActionItems env (response ragResponse) input;
               tasks = make_tasks env ragResponse fresh actionItems
           in Some (schedule_tasks env s (fresh + length actionItems) tasks)))"

section \<open>Reading scores\<close>

text \<open>The value of a score that is a finite number, and the test for it.\<close>

fun num_val :: "jsnum \<Rightarrow> real" where
  "num_val (Num v) = v"
| "num_val (Inf s) = 0"
| "num_val NaN = 0"

fun is_finite_num :: "jsnum \<Rightarrow> bool" where
  "is_finite_num (Num v) = True"
| "is_finite_num (Inf s) = False"
| "is_finite_num NaN = False"

definition has_words :: "string \<Rightarrow> bool" where
  "has_words text = (embedding_words text \<noteq> [])"

text \<open>Whether a response contains one of the action verbs that draft an item.\<close>

definition mentions_action :: "string \<Rightarrow> bool" where
  "mentions_action text =
     (rx_test (alts ''reschedule'' [''change time'']) text \<or>
      rx_test (alts ''cancel'' [''skip'']) text \<or>
      rx_test (alts ''check'' [''verify'']) text)"

text \<open>
  What scheduling a deadline reminder for a task is to leave behind: the reminder, not
  yet sent and set for the task's reminder time, and the timer armed for it.
\<close>

definition deadline_reminder :: "Env \<Rightarrow> uuid \<Rightarrow> Task \<Rightarrow> Reminder" where
  "deadline_reminder env rid task =
     \<lparr>reminder_id = rid,
      reminder_taskId = task_id task,
      reminder_message = generateReminderMessage task Deadline,
      reminder_scheduledTime = calculateReminderTime env task (task_priority task),
      reminder_priority = task_priority task,
      reminder_sent = False,
      reminder_type = Deadline\<rparr>"

definition deadline_timer :: "Env \<Rightarrow> ref \<Rightarrow> Task \<Rightarrow> Timer" where
  "deadline_timer env r task =
     \<lparr>timer_delay = calculateReminderTime env task (task_priority task) - now env,
      timer_reminder = r\<rparr>"

section \<open>Example values\<close>

definition env0 :: Env where
  "env0 = \<lparr>now = 1000000000, tz_offset = 0, notification_granted = True\<rparr>"

definition task0 :: Task where
  "task0 = \<lparr>task_id = 1, task_content = ''Pay rent'', task_priority = Low,
            task_status = Pending, task_dueDate = None, task_reminderTime = None,
            task_reminderSent = None, task_appliedRules = [], task_createdAt = 1000000000,
            task_updatedAt = 1000000000\<rparr>"

definition rule0 :: Rule where
  "rule0 = \<lparr>rule_id = ''r1'', rule_content = ''work'', rule_source = ''text/plain'',
            rule_priority = 3, rule_category = None, rule_embedding = None\<rparr>"

definition check_rule :: Rule where
  "check_rule = rule0\<lparr>rule_content := ''check''\<rparr>"

section \<open>Embeddings and cosine similarity\<close>

lemma foldl_sumsq: "foldl (\<lambda>sum val. sum + val * val) a xs = a + (\<Sum>v\<leftarrow>xs. v * v)"
  for a :: real
  by (induction xs arbitrary: a) simp_all

lemma sumsq_nonneg: "0 \<le> (\<Sum>v\<leftarrow>xs. v * v)" for xs :: "real list"
  by (induction xs) simp_all

lemma sumsq_pos:
  fixes xs :: "real list"
  assumes "x \<in> set xs" "x \<noteq> 0"
  shows "0 < (\<Sum>v\<leftarrow>xs. v * v)"
  using assms
proof (induction xs)
  case Nil
  then show ?case by simp
next
  case (Cons y ys)
  show ?case
  proof (cases "x = y")
    case True
    then have "0 < y\<^sup>2" using Cons.prems by simp
    then have "0 < y * y" by (simp add: power2_eq_square)
    moreover have "0 \<le> (\<Sum>v\<leftarrow>ys. v * v)" by (rule sumsq_nonneg)
    ultimately show ?thesis by simp
  next
    case False
    then have "0 < (\<Sum>v\<leftarrow>ys. v * v)" using Cons by simp
    moreover have "0 \<le> y * y" by simp
    ultimately show ?thesis by (simp add: add_nonneg_pos)
  qed
qed

lemma length_bump_bucket: "length (bump_bucket n e w) = length e"
  by (simp add: bump_bucket_def Let_def)

lemma length_foldl_bump: "length (foldl (bump_bucket n) e ws) = length e"
  by (induction ws arbitrary: e) (simp_all add: length_bump_bucket)

lemma bump_bucket_mono:
  assumes "i < length e"
  shows "e ! i \<le> bump_bucket n e w ! i"
proof (cases "simpleHash w mod 100 < length e")
  case True
  then show ?thesis by (simp add: bump_bucket_def Let_def nth_list_update)
next
  case False
  then show ?thesis by (simp add: bump_bucket_def Let_def list_update_beyond)
qed

lemma foldl_bump_mono:
  "i < length e \<Longrightarrow> e ! i \<le> foldl (bump_bucket n) e ws ! i"
proof (induction ws arbitrary: e)
  case Nil
  then show ?case by simp
next
  case (Cons w ws)
  have "e ! i \<le> bump_bucket n e w ! i" using Cons.prems by (rule bump_bucket_mono)
  also have "\<dots> \<le> foldl (bump_bucket n) (bump_bucket n e w) ws ! i"
    using Cons.prems by (intro Cons.IH) (simp add: length_bump_bucket)
  finally show ?case by simp
qed

lemma foldl_bump_pos:
  assumes "ws \<noteq> []" "0 < n" "length e = 100"
  shows "\<exists>i<100. e ! i < foldl (bump_bucket n) e ws ! i"
proof -
  obtain w ws' where ws: "ws = w # ws'" using assms(1) by (cases ws) auto
  let ?h = "simpleHash w mod 100"
  have h: "?h < 100" by simp
  have "e ! ?h < bump_bucket n e w ! ?h"
    using assms(2,3) by (simp add: bump_bucket_def Let_def)
  also have "\<dots> \<le> foldl (bump_bucket n) (bump_bucket n e w) ws' ! ?h"
    using assms(3) by (intro foldl_bump_mono) (simp add: length_bump_bucket)
  finally have "e ! ?h < foldl (bump_bucket n) e ws ! ?h" using ws by simp
  with h show ?thesis by blast
qed

lemma length_generateEmbedding: "length (generateEmbedding t) = 100"
  by (simp add: generateEmbedding_def Let_def length_foldl_bump)

lemma generateEmbedding_no_words:
  assumes "embedding_words t = []"
  shows "generateEmbedding t = replicate 100 0"
  using assms by (simp add: generateEmbedding_def Let_def map_replicate_const)

lemma generateEmbedding_nonneg:
  assumes "x \<in> set (generateEmbedding t)"
  shows "0 \<le> x"
proof -
  let ?ws = "embedding_words t"
  let ?e = "foldl (bump_bucket (length ?ws)) (replicate 100 0) ?ws"
  define nrm where "nrm = sqrt (foldl (\<lambda>sum val. sum + val * val) 0 ?e)"
  define f where "f = (\<lambda>val::real. if 0 < nrm then val / nrm else 0)"
  have len: "length ?e = 100" by (simp add: length_foldl_bump)
  have nonneg: "0 \<le> v" if "v \<in> set ?e" for v
  proof -
    from that obtain i where i: "i < 100" "v = ?e ! i"
      using len by (metis in_set_conv_nth)
    have "replicate 100 (0::real) ! i \<le> ?e ! i"
      using i(1) by (intro foldl_bump_mono) simp
    then show ?thesis using i by simp
  qed
  have eq: "generateEmbedding t = map f ?e"
    by (simp add: generateEmbedding_def Let_def f_def nrm_def)
  from assms obtain v where v: "v \<in> set ?e" "x = f v"
    unfolding eq by auto
  show ?thesis using nonneg [OF v(1)] v(2) by (simp add: f_def)
qed

lemma generateEmbedding_words_pos:
  assumes "embedding_words t \<noteq> []"
  shows "\<exists>x \<in> set (generateEmbedding t). 0 < x"
proof -
  let ?ws = "embedding_words t"
  let ?e = "foldl (bump_bucket (length ?ws)) (replicate 100 0) ?ws"
  define nrm where "nrm = sqrt (foldl (\<lambda>sum val. sum + val * val) 0 ?e)"
  define f where "f = (\<lambda>val::real. if 0 < nrm then val / nrm else 0)"
  have len: "length ?e = 100" by (simp add: length_foldl_bump)
  from assms have "0 < length ?ws" by simp
  with assms obtain i where i: "i < 100" "replicate 100 (0::real) ! i < ?e ! i"
    using foldl_bump_pos [of ?ws "length ?ws" "replicate 100 0"] by auto
  then have pos: "0 < ?e ! i" by simp
  have mem: "?e ! i \<in> set ?e" using i(1) len by simp
  have "0 < (\<Sum>v\<leftarrow>?e. v * v)" using mem pos by (intro sumsq_pos [of "?e ! i"]) auto
  then have n: "0 < nrm" by (simp add: nrm_def foldl_sumsq)
  have eq: "generateEmbedding t = map f ?e"
    by (simp add: generateEmbedding_def Let_def f_def nrm_def)
  have "f (?e ! i) \<in> set (generateEmbedding t)"
    unfolding eq using mem by simp
  moreover have "0 < f (?e ! i)" using pos n by (simp add: f_def)
  ultimately show ?thesis by blast
qed

lemma cosine_loop_sums:
  "length a \<le> length b \<Longrightarrow>
   cosine_loop a b (d, na, nb) =
     Some (d + (\<Sum>p\<leftarrow>zip a b. fst p * snd p), na + (\<Sum>v\<leftarrow>a. v * v),
           nb + (\<Sum>v\<leftarrow>take (length a) b. v * v))"
proof (induction a b "(d, na, nb)" arbitrary: d na nb rule: cosine_loop.induct)
  case (1 b)
  then show ?case by simp
next
  case (2 x a)
  then show ?case by simp
next
  case (3 x a y b)
  then show ?case by (simp add: algebra_simps)
qed

lemma cosine_loop_short: "length b < length a \<Longrightarrow> cosine_loop a b acc = None"
  by (induction a b acc rule: cosine_loop.induct) simp_all

lemma dot_zero_left: "(\<Sum>p\<leftarrow>zip (replicate n (0::real)) b. fst p * snd p) = 0"
  by (induction n arbitrary: b) (simp, case_tac b, simp_all)

lemma dot_zero_right: "(\<Sum>p\<leftarrow>zip a (replicate n (0::real)). fst p * snd p) = 0"
  by (induction n arbitrary: a) (simp, case_tac a, simp_all)

lemma cosineSimilarity_zero_left:
  "cosineSimilarity (replicate n 0) b = NaN"
proof (cases "n \<le> length b")
  case True
  then show ?thesis
    using sumsq_nonneg [of "take n b"]
    by (simp add: cosineSimilarity_def cosine_loop_sums dot_zero_left sum_list_replicate)
next
  case False
  then show ?thesis by (simp add: cosineSimilarity_def cosine_loop_short)
qed

lemma cosineSimilarity_zero_right:
  "cosineSimilarity a (replicate (length a) 0) = NaN"
  using sumsq_nonneg [of a]
  by (simp add: cosineSimilarity_def cosine_loop_sums dot_zero_right sum_list_replicate)

lemma dot_nonneg:
  fixes a b :: "real list"
  assumes "\<And>x. x \<in> set a \<Longrightarrow> 0 \<le> x" "\<And>x. x \<in> set b \<Longrightarrow> 0 \<le> x"
  shows "0 \<le> (\<Sum>p\<leftarrow>zip a b. fst p * snd p)"
proof (rule sum_list_nonneg)
  fix x assume "x \<in> set (map (\<lambda>p. fst p * snd p) (zip a b))"
  then obtain u v where uv: "(u, v) \<in> set (zip a b)" "x = u * v" by auto
  then have "u \<in> set a" "v \<in> set b"
    by (auto dest: set_zip_leftD set_zip_rightD)
  then show "0 \<le> x" using assms uv(2) by simp
qed

lemma cosineSimilarity_num:
  assumes la: "length a = length b"
    and a: "\<And>x. x \<in> set a \<Longrightarrow> 0 \<le> x" and b: "\<And>x. x \<in> set b \<Longrightarrow> 0 \<le> x"
    and pa: "\<exists>x \<in> set a. 0 < x" and pb: "\<exists>x \<in> set b. 0 < x"
  shows "is_finite_num (cosineSimilarity a b) \<and> 0 \<le> num_val (cosineSimilarity a b)"
proof -
  let ?d = "\<Sum>p\<leftarrow>zip a b. fst p * snd p"
  let ?na = "\<Sum>v\<leftarrow>a. v * v"
  let ?nb = "\<Sum>v\<leftarrow>b. v * v"
  have loop: "cosine_loop a b (0, 0, 0) = Some (?d, ?na, ?nb)"
    using la by (simp add: cosine_loop_sums)
  from pa obtain x where "x \<in> set a" "x \<noteq> 0" by auto
  then have na: "0 < ?na" by (rule sumsq_pos)
  from pb obtain y where "y \<in> set b" "y \<noteq> 0" by auto
  then have nb: "0 < ?nb" by (rule sumsq_pos)
  have d: "0 \<le> ?d" using a b by (rule dot_nonneg)
  have den: "0 < sqrt ?na * sqrt ?nb" using na nb by simp
  have eq: "cosineSimilarity a b = Num (?d / (sqrt ?na * sqrt ?nb))"
    using na nb den by (simp add: cosineSimilarity_def loop)
  have "0 \<le> ?d / (sqrt ?na * sqrt ?nb)" using d den by (intro divide_nonneg_pos)
  then show ?thesis by (simp add: eq)
qed

lemma similarity_of_words:
  assumes "has_words q" "has_words t"
  shows "is_finite_num (cosineSimilarity (generateEmbedding q) (generateEmbedding t)) \<and>
         0 \<le> num_val (cosineSimilarity (generateEmbedding q) (generateEmbedding t))"
  using assms unfolding has_words_def
  by (intro cosineSimilarity_num generateEmbedding_words_pos)
     (simp_all add: length_generateEmbedding generateEmbedding_nonneg)


lemma similarity_no_words_right:
  assumes "\<not> has_words t"
  shows "cosineSimilarity (generateEmbedding q) (generateEmbedding t) = NaN"
  using assms cosineSimilarity_zero_right [of "generateEmbedding q"]
  by (simp add: has_words_def generateEmbedding_no_words length_generateEmbedding)

lemma rules_addRules:
  "rules (addRules s rs) =
     rules s @ map (\<lambda>rule. rule\<lparr>rule_embedding := Some (generateEmbedding (rule_content rule))\<rparr>) rs"
  unfolding addRules_def
  by (induction rs arbitrary: s) (simp_all add: addRule_def Let_def)

lemma score_rules_addRules:
  "score_rules e (rules (addRules VectorStore_new rs)) =
     map (\<lambda>rule. (rule\<lparr>rule_embedding := Some (generateEmbedding (rule_content rule))\<rparr>,
                   cosineSimilarity e (generateEmbedding (rule_content rule)))) rs"
  unfolding rules_addRules
  by (induction rs) (simp_all add: score_rules_def VectorStore_new_def)

lemma length_js_insert: "length (js_insert cmp x ys) = Suc (length ys)"
  by (induction ys) simp_all

lemma length_js_sort: "length (js_sort cmp xs) = length xs"
  unfolding js_sort_def by (induction xs) (simp_all add: length_js_insert)





section \<open>Searching\<close>

lemma no_words_empty: "\<not> has_words ''''"
  by (simp add: has_words_def embedding_words_def split_nonword_def toLowerCase_def)

lemma has_words_gym: "has_words ''gym''"
  by (simp add: has_words_def embedding_words_def split_nonword_def toLowerCase_def
      lower_char_def is_word_char_def is_upper_def is_lower_def is_digit_def)

lemma has_words_work: "has_words ''work''"
  by (simp add: has_words_def embedding_words_def split_nonword_def toLowerCase_def
      lower_char_def is_word_char_def is_upper_def is_lower_def is_digit_def)

lemma searchSimilar_addRules:
  "searchSimilar (addRules VectorStore_new rs) q k =
     js_slice0 k (js_sort (\<lambda>a b. jsub (similarity b) (similarity a))
       (map (\<lambda>rule. (rule\<lparr>rule_embedding := Some (generateEmbedding (rule_content rule))\<rparr>,
                     cosineSimilarity (generateEmbedding q) (generateEmbedding (rule_content rule)))) rs))"
  by (simp add: searchSimilar_def Let_def score_rules_addRules)

text \<open>
  Claim C1 (the similarity involving an all-zero fingerprint is the number 0) against the
  code: the empty text has the all-zero fingerprint, the cosine similarity of any
  fingerprint with the all-zero vector is NaN on either side, and the search over a store
  holding one rule with empty content returns that rule with the score NaN, for every
  query.
\<close>

theorem zero_fingerprint_similarity_is_NaN:
  "generateEmbedding '''' = replicate 100 0 \<and>
   cosineSimilarity (generateEmbedding query) (replicate 100 0) = NaN \<and>
   cosineSimilarity (replicate 100 0) (generateEmbedding text) = NaN \<and>
   cosineSimilarity (replicate 100 0) (replicate 100 0) = NaN \<and>
   map similarity
     (searchSimilar (addRules VectorStore_new [rule\<lparr>rule_content := ''''\<rparr>]) query 5) = [NaN]"
proof -
  have e: "generateEmbedding '''' = replicate 100 0"
    using no_words_empty by (simp add: has_words_def generateEmbedding_no_words)
  have r: "cosineSimilarity (generateEmbedding query) (replicate 100 0) = NaN"
    using cosineSimilarity_zero_right [of "generateEmbedding query"]
    by (simp add: length_generateEmbedding)
  have l: "cosineSimilarity (replicate 100 0) b = NaN" for b
    by (rule cosineSimilarity_zero_left)
  have "map similarity
     (searchSimilar (addRules VectorStore_new [rule\<lparr>rule_content := ''''\<rparr>]) query 5) = [NaN]"
    by (simp add: searchSimilar_addRules js_sort_def js_slice0_def similarity_def e r)
  with e r l show ?thesis by simp
qed




section \<open>Confidence\<close>

lemma generateResponse_total:
  assumes "rs \<noteq> []"
  shows "\<exists>text. generateResponse input rs = Some text"
proof (cases "containsTimeConflict input rs")
  case True
  then show ?thesis by (simp add: generateResponse_def)
next
  case False
  show ?thesis
  proof (cases "containsPriorityConflict input rs")
    case True
    then have "list_ex (\<lambda>rule. rx_test priority_rule_rx (rule_content rule)) rs"
      by (simp add: containsPriorityConflict_def Let_def)
    then have "filter (\<lambda>rule. rx_test priority_rule_rx (rule_content rule)) rs \<noteq> []"
      by (simp add: list_ex_iff filter_empty_conv)
    then obtain first rest where
      "filter (\<lambda>rule. rx_test priority_rule_rx (rule_content rule)) rs = first # rest"
      by (cases "filter (\<lambda>rule. rx_test priority_rule_rx (rule_content rule)) rs") auto
    then show ?thesis
      using False True by (simp add: generateResponse_def handlePriorityConflict_def Let_def)
  next
    case nopri: False
    obtain r rest where "rs = r # rest" using assms by (cases rs) auto
    then show ?thesis
      using False nopri by (simp add: generateResponse_def generateBasicResponse_def)
  qed
qed

lemma processUserInput_total:
  "\<exists>resp. processUserInput store input = Some resp"
proof (cases "searchSimilar store input 3 = []")
  case True
  then show ?thesis by (simp add: processUserInput_def)
next
  case False
  then obtain t where "generateResponse input (map fst (searchSimilar store input 3)) = Some t"
    using generateResponse_total [of "map fst (searchSimilar store input 3)" input] by auto
  then show ?thesis using False by (simp add: processUserInput_def Let_def)
qed

lemma processUserInput_found:
  assumes "searchSimilar store input 3 \<noteq> []"
  shows "\<exists>text. processUserInput store input =
           Some \<lparr>response = text, relevantRules = map fst (searchSimilar store input 3),
                 confidence = calculateConfidence (searchSimilar store input 3)\<rparr>"
proof -
  obtain t where "generateResponse input (map fst (searchSimilar store input 3)) = Some t"
    using assms generateResponse_total [of "map fst (searchSimilar store input 3)" input] by auto
  then show ?thesis using assms by (simp add: processUserInput_def Let_def)
qed

lemma foldl_jadd_nums:
  assumes "list_all (\<lambda>r. is_finite_num (similarity r)) results"
  shows "foldl (\<lambda>sum r. jadd sum (similarity r)) (Num a) results =
         Num (a + (\<Sum>r\<leftarrow>results. num_val (similarity r)))"
  using assms
proof (induction results arbitrary: a)
  case Nil
  then show ?case by simp
next
  case (Cons r results)
  obtain v where v: "similarity r = Num v"
    using Cons.prems by (cases "similarity r") auto
  show ?case using Cons by (simp add: v add.assoc)
qed

lemma calculateConfidence_nums:
  assumes ne: "results \<noteq> []"
    and nums: "list_all (\<lambda>r. is_finite_num (similarity r)) results"
  shows "calculateConfidence results =
         Num (min (100 * ((\<Sum>r\<leftarrow>results. num_val (similarity r)) / real (length results))) 100)"
  using ne by (simp add: calculateConfidence_def Let_def foldl_jadd_nums [OF nums] mult.commute)

lemma length_searchSimilar_3:
  "length (searchSimilar (addRules VectorStore_new rs) input 3) = min 3 (length rs)"
  by (simp add: searchSimilar_addRules js_slice0_def length_js_sort min.commute)

lemma set_js_sort:
  "set (js_sort cmp xs) = set xs"
proof -
  have "set (js_insert cmp x ys) = insert x (set ys)" for x ys
    by (induction ys) auto
  then show ?thesis unfolding js_sort_def by (induction xs) simp_all
qed

lemma set_js_slice0: "set (js_slice0 k xs) \<subseteq> set xs"
  by (auto simp: js_slice0_def dest: in_set_takeD)


lemma dot_update_left:
  fixes a b :: "real list"
  assumes "i < length a" "i < length b"
  shows "(\<Sum>p\<leftarrow>zip (a[i := x]) b. fst p * snd p) =
         (\<Sum>p\<leftarrow>zip a b. fst p * snd p) + (x - a ! i) * b ! i"
  using assms
proof (induction a arbitrary: i b)
  case Nil
  then show ?case by simp
next
  case (Cons y a)
  obtain z b' where b: "b = z # b'" using Cons.prems by (cases b) auto
  show ?case
  proof (cases i)
    case 0
    then show ?thesis by (simp add: b algebra_simps)
  next
    case (Suc j)
    then show ?thesis using Cons.prems Cons.IH [of j b'] by (simp add: b)
  qed
qed

lemma sum_list_unit: "i < n \<Longrightarrow> sum_list ((replicate n (0::real))[i := x]) = x"
proof (induction n arbitrary: i)
  case 0
  then show ?case by simp
next
  case (Suc n)
  then show ?case by (cases i) (simp_all add: sum_list_replicate)
qed

lemma sumsq_unit: "i < n \<Longrightarrow> (\<Sum>v\<leftarrow>(replicate n (0::real))[i := 1]. v * v) = 1"
  by (simp add: map_update sum_list_unit)

lemma generateEmbedding_one_word:
  assumes "embedding_words t = [w]"
  shows "generateEmbedding t = (replicate 100 0)[simpleHash w mod 100 := 1]"
proof -
  let ?u = "(replicate 100 (0::real))[simpleHash w mod 100 := 1]"
  have raw: "foldl (bump_bucket (length [w])) (replicate 100 0) [w] = ?u"
    by (simp add: bump_bucket_def Let_def)
  have nrm: "sqrt (foldl (\<lambda>sum val. sum + val * val) 0 ?u) = 1"
    by (simp only: foldl_sumsq) (simp add: sumsq_unit)
  show ?thesis
    unfolding generateEmbedding_def Let_def assms raw nrm by (simp add: map_idI)
qed

lemma cosineSimilarity_units:
  assumes "i < 100" "j < 100" "i \<noteq> j"
  shows "cosineSimilarity ((replicate 100 0)[i := 1]) ((replicate 100 0)[j := 1]) = Num 0"
proof -
  let ?a = "(replicate 100 (0::real))[i := 1]"
  let ?b = "(replicate 100 (0::real))[j := 1]"
  have d: "(\<Sum>p\<leftarrow>zip ?a ?b. fst p * snd p) = 0"
    using assms by (simp add: dot_update_left dot_zero_left)
  have "cosine_loop ?a ?b (0, 0, 0) = Some (0, 1, 1)"
    using assms by (simp add: cosine_loop_sums d sumsq_unit)
  then show ?thesis by (simp add: cosineSimilarity_def)
qed

lemma words_gym: "embedding_words ''gym'' = [''gym'']"
  by (simp add: embedding_words_def split_nonword_def toLowerCase_def
      lower_char_def is_word_char_def is_upper_def is_lower_def is_digit_def)

lemma words_work: "embedding_words ''work'' = [''work'']"
  by (simp add: embedding_words_def split_nonword_def toLowerCase_def
      lower_char_def is_word_char_def is_upper_def is_lower_def is_digit_def)

lemma similarity_gym_work:
  "cosineSimilarity (generateEmbedding ''gym'') (generateEmbedding ''work'') = Num 0"
proof -
  have g: "simpleHash ''gym'' mod 100 = 43" by (simp add: simpleHash_def)
  have w: "simpleHash ''work'' mod 100 = 41" by (simp add: simpleHash_def)
  show ?thesis
    unfolding generateEmbedding_one_word [OF words_gym] generateEmbedding_one_word [OF words_work] g w
    by (rule cosineSimilarity_units) simp_all
qed

text \<open>
  Claim C5 as stated (the confidence is 0 exactly when no rules are retrieved) fails: for
  the store holding the one rule \<open>work\<close> and the input \<open>gym\<close>, whose tokens fall in
  different buckets, one rule is retrieved and the confidence is 0.
\<close>

theorem zero_confidence_with_rules_counterexample:
  "map_option confidence (processUserInput (addRules VectorStore_new [rule0]) ''gym'') = Some (Num 0) \<and>
   map_option (\<lambda>resp. length (relevantRules resp))
     (processUserInput (addRules VectorStore_new [rule0]) ''gym'') = Some 1"
proof -
  let ?store = "addRules VectorStore_new [rule0]"
  have found: "searchSimilar ?store ''gym'' 3 =
      [(rule0\<lparr>rule_embedding := Some (generateEmbedding ''work'')\<rparr>, Num 0)]"
    by (simp add: searchSimilar_addRules js_sort_def js_slice0_def rule0_def similarity_gym_work)
  obtain t where "processUserInput ?store ''gym'' =
           Some \<lparr>response = t, relevantRules = map fst (searchSimilar ?store ''gym'' 3),
                 confidence = calculateConfidence (searchSimilar ?store ''gym'' 3)\<rparr>"
    using processUserInput_found [of ?store "''gym''"] found by auto
  then show ?thesis
    by (simp add: found calculateConfidence_def similarity_def)
qed

text \<open>
  Claim C5, amended. \<open>processUserInput\<close> always returns a response. When the store has
  no rule, no rule is retrieved and the confidence is 0. When the store has rules, and
  the input and every rule have a token of more than two characters, the retrieved rules
  are those of the search for the top 3, there is at least one, and the confidence is the
  number \<open>min(100 * mean similarity, 100)\<close> over them, which lies between 0 and 100; it
  may be 0 although rules are retrieved.
\<close>

theorem processUserInput_confidence:
  "\<exists>resp. processUserInput (addRules VectorStore_new rs) input = Some resp \<and>
     (rs = [] \<longrightarrow> confidence resp = Num 0 \<and> relevantRules resp = []) \<and>
     (rs \<noteq> [] \<and> has_words input \<and> list_all (\<lambda>rule. has_words (rule_content rule)) rs \<longrightarrow>
        relevantRules resp = map fst (searchSimilar (addRules VectorStore_new rs) input 3) \<and>
        relevantRules resp \<noteq> [] \<and>
        (\<exists>c. confidence resp = Num c \<and> 0 \<le> c \<and> c \<le> 100 \<and>
             c = min (100 * ((\<Sum>r\<leftarrow>searchSimilar (addRules VectorStore_new rs) input 3.
                                  num_val (similarity r))
                             / real (length (searchSimilar (addRules VectorStore_new rs) input 3))))
                     100))"
proof (cases "rs = []")
  case True
  have "searchSimilar (addRules VectorStore_new rs) input 3 = []"
    using True by (simp add: searchSimilar_addRules js_sort_def js_slice0_def)
  then have "processUserInput (addRules VectorStore_new rs) input =
      Some \<lparr>response = no_rules_response, relevantRules = [], confidence = Num 0\<rparr>"
    by (simp add: processUserInput_def)
  then show ?thesis using True by simp
next
  case False
  let ?found = "searchSimilar (addRules VectorStore_new rs) input 3"
  have ne: "?found \<noteq> []"
    using False length_searchSimilar_3 [of rs input] by (cases rs) auto
  obtain t where resp: "processUserInput (addRules VectorStore_new rs) input =
           Some \<lparr>response = t, relevantRules = map fst ?found,
                 confidence = calculateConfidence ?found\<rparr>"
    using processUserInput_found [OF ne] by auto
  have conf: "\<exists>c. calculateConfidence ?found = Num c \<and> 0 \<le> c \<and> c \<le> 100 \<and>
             c = min (100 * ((\<Sum>r\<leftarrow>?found. num_val (similarity r)) / real (length ?found))) 100"
    if q: "has_words input" and all: "list_all (\<lambda>rule. has_words (rule_content rule)) rs"
  proof -
    let ?scored = "map (\<lambda>rule. (rule\<lparr>rule_embedding := Some (generateEmbedding (rule_content rule))\<rparr>,
                     cosineSimilarity (generateEmbedding input) (generateEmbedding (rule_content rule)))) rs"
    have sub: "set ?found \<subseteq> set ?scored"
      unfolding searchSimilar_addRules using set_js_slice0 set_js_sort by fast
    have scored: "is_finite_num (similarity r) \<and> 0 \<le> num_val (similarity r)" if "r \<in> set ?scored" for r
      using that all similarity_of_words [OF q] by (auto simp: list_all_iff similarity_def)
    have nums: "list_all (\<lambda>r. is_finite_num (similarity r)) ?found"
      using sub scored by (auto simp: list_all_iff)
    have nonneg: "0 \<le> (\<Sum>r\<leftarrow>?found. num_val (similarity r))"
      using sub scored by (intro sum_list_nonneg) auto
    let ?c = "min (100 * ((\<Sum>r\<leftarrow>?found. num_val (similarity r)) / real (length ?found))) 100"
    have "calculateConfidence ?found = Num ?c"
      using ne nums by (rule calculateConfidence_nums)
    moreover have "0 \<le> ?c" using nonneg by simp
    moreover have "?c \<le> 100" by simp
    ultimately show ?thesis by blast
  qed
  show ?thesis using resp ne conf False by auto
qed

theorem processUserInput_confidence_witness:
  "\<exists>c. map_option confidence
          (processUserInput
             (addRules VectorStore_new [rule0, rule0\<lparr>rule_id := ''r2'', rule_content := ''gym''\<rparr>])
             ''gym'') = Some (Num c) \<and> 0 \<le> c \<and> c \<le> 100"
  using processUserInput_confidence
          [where input = "''gym''"
             and rs = "[rule0, rule0\<lparr>rule_id := ''r2'', rule_content := ''gym''\<rparr>]"]
        has_words_gym has_words_work
  by (auto simp: rule0_def)

section \<open>Reminder timing\<close>

lemma date_of_le: "x \<le> of_int n \<Longrightarrow> date_of x \<le> n"
  unfolding date_of_def by (auto simp: floor_le_iff ceiling_le_iff)

text \<open>
  Claim C9. For every task, every stated priority and every current time,
  \<open>calculateReminderTime\<close> returns a time strictly after \<open>now\<close>; and whenever the due
  date minus the offset falls at or before \<open>now\<close>, the result is \<open>now\<close> plus 5 minutes.
\<close>

theorem calculateReminderTime_after_now:
  "now env < calculateReminderTime env task priority \<and>
   (of_int (dueDate_or_default env task)
      - reminderOffset (effectivePriority (dueDate_or_default env task - now env) priority)
          (dueDate_or_default env task - now env) \<le> of_int (now env)
    \<longrightarrow> calculateReminderTime env task priority = now env + minutes_ms 5)"
proof -
  let ?due = "dueDate_or_default env task"
  let ?off = "reminderOffset (effectivePriority (?due - now env) priority) (?due - now env)"
  have clamp: "calculateReminderTime env task priority =
      (if now env < date_of (of_int ?due - ?off) then date_of (of_int ?due - ?off)
       else now env + minutes_ms 5)"
    by (simp add: calculateReminderTime_def Let_def)
  have pos: "now env < calculateReminderTime env task priority"
    unfolding clamp by (simp add: minutes_ms_def)
  have "calculateReminderTime env task priority = now env + minutes_ms 5"
    if "of_int ?due - ?off \<le> of_int (now env)"
  proof -
    from that have "date_of (of_int ?due - ?off) \<le> now env" by (rule date_of_le)
    then show ?thesis unfolding clamp by simp
  qed
  with pos show ?thesis by blast
qed

text \<open>
  A task due one minute from now: the due date minus the 15 minute offset is in the past,
  and the reminder is set 5 minutes from now.
\<close>

theorem calculateReminderTime_after_now_witness:
  "calculateReminderTime env0 (task0\<lparr>task_dueDate := Some 1000060000\<rparr>) Low = 1000300000"
  using calculateReminderTime_after_now [of env0 "task0\<lparr>task_dueDate := Some 1000060000\<rparr>" Low]
  by (simp add: env0_def task0_def dueDate_or_default_def effectivePriority_def
      reminderOffset_def hours_ms_def minutes_ms_def)

text \<open>
  Claim C2 as stated (a task due in 10 hours with stated priority low gets its reminder
  at \<open>now\<close> plus 5 hours) fails: the reminder is not at \<open>now\<close> plus 5 hours.
\<close>

theorem low_priority_ten_hours_counterexample:
  "calculateReminderTime env0 (task0\<lparr>task_dueDate := Some (now env0 + hours_ms 10)\<rparr>) Low
     \<noteq> now env0 + hours_ms 5"
  by (simp add: calculateReminderTime_def env0_def task0_def dueDate_or_default_def
      effectivePriority_def reminderOffset_def hours_ms_def minutes_ms_def date_of_def Let_def)

text \<open>
  Claim C2, amended. For a task due 10 hours from now with stated priority low, the 24 hour
  rule makes the effective priority high; the high branch gives the offset of 2 hours,
  and \<open>calculateReminderTime\<close> returns \<open>now\<close> plus 8 hours.
\<close>

theorem due_in_ten_hours_reminder:
  assumes "task_dueDate task = Some (now env + hours_ms 10)"
  shows "effectivePriority (hours_ms 10) Low = High \<and>
         reminderOffset High (hours_ms 10) = of_int (hours_ms 2) \<and>
         calculateReminderTime env task Low = now env + hours_ms 8"
proof -
  have due: "dueDate_or_default env task = now env + hours_ms 10"
    using assms by (simp add: dueDate_or_default_def)
  have eff: "effectivePriority (hours_ms 10) Low = High"
    by (simp add: effectivePriority_def hours_ms_def)
  have off: "reminderOffset High (hours_ms 10) = of_int (hours_ms 2)"
    by (simp add: reminderOffset_def hours_ms_def)
  have "of_int (now env + hours_ms 10) - (of_int (hours_ms 2) :: rat) = of_int (now env + hours_ms 8)"
    by (simp add: hours_ms_def)
  then have "date_of (of_int (now env + hours_ms 10) - of_int (hours_ms 2)) = now env + hours_ms 8"
    by (simp only: date_of_def floor_of_int ceiling_of_int if_cancel)
  then have "calculateReminderTime env task Low = now env + hours_ms 8"
    by (simp add: calculateReminderTime_def Let_def due eff off) (simp add: hours_ms_def)
  with eff off show ?thesis by simp
qed

theorem due_in_ten_hours_reminder_witness:
  "calculateReminderTime env0 (task0\<lparr>task_dueDate := Some (now env0 + hours_ms 10)\<rparr>) Low
     = now env0 + hours_ms 8"
  using due_in_ten_hours_reminder [of "task0\<lparr>task_dueDate := Some (now env0 + hours_ms 10)\<rparr>" env0]
  by simp

section \<open>Reminder messages and firing\<close>

text \<open>
  Claim C3 (each reminder's message uses the phrasing of its own type) against the code:
  \<open>generateReminderMessage\<close> returns the preparation phrasing for a deadline reminder, and
  the same message for all three types; a deadline reminder never carries the deadline
  phrasing.
\<close>

theorem reminder_message_ignores_type:
  "generateReminderMessage task Deadline =
     priorityEmoji (task_priority task) @ '' Time to prepare for: '' @ task_content task \<and>
   generateReminderMessage task Followup = generateReminderMessage task Deadline \<and>
   generateReminderMessage task Preparation = generateReminderMessage task Deadline \<and>
   generateReminderMessage task Deadline \<noteq>
     priorityEmoji (task_priority task) @ '' Task deadline approaching: '' @ task_content task"
  by (simp add: generateReminderMessage_def str_or_def preparation_message_def)

text \<open>
  A reminder scheduled within the grace window fires at once, and the message written to
  the console is the one \<open>generateReminderMessage\<close> built.
\<close>

lemma scheduleReminder_fires_message:
  "reminderTime \<le> now env \<Longrightarrow> now env - 300000 < reminderTime \<Longrightarrow>
   console (scheduleReminder env s fresh task reminderTime type) =
     console s @ [bell @ '' REMINDER: '' @ generateReminderMessage task type]"
  by (simp add: scheduleReminder_def scheduleNotification_def sendReminder_def Let_def)

text \<open>
  Claim C4 as stated (a fired reminder no longer appears in \<open>getAllReminders()\<close>) fails:
  the reminder with id 7, scheduled an hour ahead and then fired, is still the one entry
  of \<open>getAllReminders()\<close>.
\<close>

theorem fired_reminder_stays_counterexample:
  "getAllReminders
     (sendReminder env0
        (scheduleReminder env0 ReminderService_new 7 task0 (now env0 + hours_ms 1) Deadline) 0)
   = [0] \<and>
   map_option reminder_id
     (heap (sendReminder env0
        (scheduleReminder env0 ReminderService_new 7 task0 (now env0 + hours_ms 1) Deadline) 0) 0)
   = Some 7"
  by (simp add: getAllReminders_def sendReminder_def scheduleReminder_def
      scheduleNotification_def ReminderService_new_def env0_def hours_ms_def Let_def)

text \<open>
  Claim C4, amended. Firing a reminder does not remove it: \<open>sendReminder\<close> leaves
  \<open>getAllReminders()\<close> unchanged, marks the reminder as sent and removes its timer.
\<close>

theorem sendReminder_marks_sent:
  "getAllReminders (sendReminder env s r) = getAllReminders s \<and>
   (heap s r = Some reminder \<longrightarrow>
      heap (sendReminder env s r) r = Some (reminder\<lparr>reminder_sent := True\<rparr>) \<and>
      activeTimers (sendReminder env s r) (reminder_id reminder) = None)"
  by (simp add: getAllReminders_def sendReminder_def split: option.splits)

theorem sendReminder_marks_sent_witness:
  "getAllReminders
     (sendReminder env0
        (scheduleReminder env0 ReminderService_new 7 task0 (now env0 + hours_ms 1) Deadline) 0)
   = getAllReminders
       (scheduleReminder env0 ReminderService_new 7 task0 (now env0 + hours_ms 1) Deadline) \<and>
   map_option reminder_sent
     (heap (sendReminder env0
        (scheduleReminder env0 ReminderService_new 7 task0 (now env0 + hours_ms 1) Deadline) 0) 0)
   = Some True \<and>
   activeTimers (sendReminder env0
        (scheduleReminder env0 ReminderService_new 7 task0 (now env0 + hours_ms 1) Deadline) 0) 7
   = None"
proof -
  let ?s = "scheduleReminder env0 ReminderService_new 7 task0 (now env0 + hours_ms 1) Deadline"
  let ?rem = "\<lparr>reminder_id = 7, reminder_taskId = task_id task0,
                reminder_message = generateReminderMessage task0 Deadline,
                reminder_scheduledTime = now env0 + hours_ms 1,
                reminder_priority = task_priority task0, reminder_sent = False,
                reminder_type = Deadline\<rparr>"
  have h: "heap ?s 0 = Some ?rem"
    by (simp add: scheduleReminder_def scheduleNotification_def ReminderService_new_def
        env0_def hours_ms_def Let_def)
  show ?thesis
    using sendReminder_marks_sent [of env0 ?s 0 ?rem] h by simp
qed

section \<open>Adding rules\<close>

text \<open>
  Claim C7 as stated (re-adding a rule whose id is present leaves exactly one entry with
  that id) fails: after adding the rule with id \<open>r1\<close> twice, \<open>getAllRules()\<close> has two
  entries with that id.
\<close>

theorem addRules_duplicate_counterexample:
  "length (filter (\<lambda>r. rule_id r = ''r1'')
     (getAllRules (addRules (addRules VectorStore_new [rule0]) [rule0]))) = 2"
  by (simp add: getAllRules_def rules_addRules VectorStore_new_def rule0_def)

text \<open>
  Claim C7, amended. \<open>addRules\<close> appends every given rule, with its embedding attached,
  whatever ids the store holds: the number of entries of \<open>getAllRules()\<close> with a given id
  grows by the number of given rules with that id.
\<close>

theorem addRules_appends:
  "getAllRules (addRules s rs) =
     getAllRules s @
     map (\<lambda>rule. rule\<lparr>rule_embedding := Some (generateEmbedding (rule_content rule))\<rparr>) rs \<and>
   length (filter (\<lambda>r. rule_id r = i) (getAllRules (addRules s rs))) =
     length (filter (\<lambda>r. rule_id r = i) (getAllRules s)) +
     length (filter (\<lambda>r. rule_id r = i) rs)"
  by (simp add: getAllRules_def rules_addRules filter_map comp_def)

section \<open>Task recommendations\<close>

lemma upt_shift: "[a..<a + Suc n] = a # [Suc a..<Suc a + n]"
  by (simp add: upt_rec)

lemma drafted_items_due:
  "list_all (\<lambda>item. item_dueDate item \<noteq> None)
     (drafted_items env t urgent suggested)"
  by (simp add: drafted_items_def)

lemma drafted_items_empty:
  "(drafted_items env t urgent suggested = []) = (\<not> mentions_action t)"
  by (simp add: drafted_items_def mentions_action_def)

lemma override_due:
  "list_all (\<lambda>item. item_dueDate item \<noteq> None)
     (map (\<lambda>item. item\<lparr>item_priority := High, item_dueDate := Some d\<rparr>) items)"
  by (induction items) simp_all

lemma urgent_time_due:
  assumes "list_all (\<lambda>item. item_dueDate item \<noteq> None) items"
  shows "list_all (\<lambda>item. item_dueDate item \<noteq> None)
          (map (\<lambda>item. case item_dueDate item of
                   None \<Rightarrow> item\<lparr>item_priority := High, item_dueDate := Some d\<rparr>
                 | Some _ \<Rightarrow> item\<lparr>item_priority := High\<rparr>) items)"
  using assms by (induction items) (auto split: option.splits)

lemma extractActionItems_due:
  "list_all (\<lambda>item. item_dueDate item \<noteq> None) (extractActionItems env t input)"
proof -
  define P :: "ActionItem list \<Rightarrow> bool"
    where "P = list_all (\<lambda>item. item_dueDate item \<noteq> None)"
  define items0 where
    "items0 = drafted_items env t (isUrgentTimeframe input) (extractDueDate env input)"
  define items1 where
    "items1 = (if rx_test urgent_rx input
               then map (\<lambda>item. item\<lparr>item_priority := High,
                                       item_dueDate := Some (now env + minutes_ms 30)\<rparr>) items0
               else items0)"
  define items2 where
    "items2 = (if isUrgentTimeframe input \<or>
                  rx_test (Alt today_rx (Alt in_hours_rx within_hour_rx)) input
               then map (\<lambda>item.
                           (case item_dueDate item of
                              None \<Rightarrow>
                                item\<lparr>item_priority := High,
                                     item_dueDate :=
                                       Some (or_default (extractDueDate env input)
                                               (now env + hours_ms 8))\<rparr>
                            | Some _ \<Rightarrow> item\<lparr>item_priority := High\<rparr>)) items1
               else items1)"
  have p0: "P items0" unfolding P_def items0_def by (rule drafted_items_due)
  have p1: "P items1"
  proof (cases "rx_test urgent_rx input")
    case True
    then have "items1 = map (\<lambda>item. item\<lparr>item_priority := High,
                                       item_dueDate := Some (now env + minutes_ms 30)\<rparr>) items0"
      by (simp add: items1_def)
    then show ?thesis unfolding P_def by (simp only: override_due)
  next
    case False
    then show ?thesis using p0 by (simp add: items1_def)
  qed
  have p2: "P items2"
  proof (cases "isUrgentTimeframe input \<or>
                  rx_test (Alt today_rx (Alt in_hours_rx within_hour_rx)) input")
    case True
    then have "items2 = map (\<lambda>item.
                           (case item_dueDate item of
                              None \<Rightarrow>
                                item\<lparr>item_priority := High,
                                     item_dueDate :=
                                       Some (or_default (extractDueDate env input)
                                               (now env + hours_ms 8))\<rparr>
                            | Some _ \<Rightarrow> item\<lparr>item_priority := High\<rparr>)) items1"
      unfolding items2_def by (simp only: if_True)
    then show ?thesis using p1 urgent_time_due unfolding P_def by simp
  next
    case False
    then have "items2 = items1" unfolding items2_def by (simp only: if_False)
    then show ?thesis using p1 by simp
  qed
  have "extractActionItems env t input =
        (if length items2 = 0
         then [\<lparr>item_content = ''Handle: '' @ input,
                item_priority = calculateDefaultPriority env input (extractDueDate env input),
                item_dueDate = Some (or_default (extractDueDate env input) (now env + hours_ms 24))\<rparr>]
         else items2)"
    by (simp only: extractActionItems_def Let_def items0_def items1_def items2_def)
  moreover have "P [\<lparr>item_content = ''Handle: '' @ input,
                item_priority = calculateDefaultPriority env input (extractDueDate env input),
                item_dueDate = Some (or_default (extractDueDate env input) (now env + hours_ms 24))\<rparr>]"
    by (simp add: P_def)
  ultimately have "P (extractActionItems env t input)" using p2 by simp
  then show ?thesis by (simp only: P_def)
qed

lemma extractActionItems_nonempty: "extractActionItems env t input \<noteq> []"
  by (simp add: extractActionItems_def Let_def)

lemma extractActionItems_urgent:
  assumes "rx_test urgent_rx input"
  shows "extractActionItems env t input =
     (if mentions_action t
      then map (\<lambda>item. item\<lparr>item_priority := High,
                              item_dueDate := Some (now env + minutes_ms 30)\<rparr>)
             (drafted_items env t (isUrgentTimeframe input) (extractDueDate env input))
      else [\<lparr>item_content = ''Handle: '' @ input,
             item_priority = calculateDefaultPriority env input (extractDueDate env input),
             item_dueDate = Some (or_default (extractDueDate env input) (now env + hours_ms 24))\<rparr>])"
proof -
  let ?d = "drafted_items env t (isUrgentTimeframe input) (extractDueDate env input)"
  let ?f = "\<lambda>item. item\<lparr>item_priority := High, item_dueDate := Some (now env + minutes_ms 30)\<rparr>"
  let ?g = "\<lambda>item. case item_dueDate item of
                   None \<Rightarrow> item\<lparr>item_priority := High,
                     item_dueDate := Some (or_default (extractDueDate env input) (now env + hours_ms 8))\<rparr>
                 | Some _ \<Rightarrow> item\<lparr>item_priority := High\<rparr>"
  have gf: "map ?g (map ?f ?d) = map ?f ?d" by (induction ?d) simp_all
  show ?thesis
  proof (cases "mentions_action t")
    case True
    then show ?thesis
      using assms gf by (simp add: extractActionItems_def Let_def drafted_items_empty)
  next
    case False
    then show ?thesis
      using assms by (simp add: extractActionItems_def Let_def drafted_items_empty)
  qed
qed

lemma length_make_tasks: "length (make_tasks env rag fresh items) = length items"
  by (induction items arbitrary: fresh) simp_all

lemma ids_make_tasks:
  "map task_id (make_tasks env rag fresh items) = [fresh..<fresh + length items]"
proof (induction items arbitrary: fresh)
  case Nil
  then show ?case by simp
next
  case (Cons item items)
  have "[fresh..<fresh + length (item # items)] = fresh # [Suc fresh..<Suc fresh + length items]"
    using upt_shift [of fresh "length items"] by simp
  then show ?case using Cons by (simp add: make_task_def)
qed

lemma fields_make_tasks:
  "map (\<lambda>t. (task_content t, task_priority t, task_dueDate t)) (make_tasks env rag fresh items) =
   map (\<lambda>item. (item_content item, item_priority item, item_dueDate item)) items"
  by (induction items arbitrary: fresh) (simp_all add: make_task_def)

lemma scheduleReminder_future:
  assumes "now env < reminderTime"
  shows "scheduleReminder env s fresh task reminderTime type =
     s\<lparr>heap := (heap s)(next_ref s \<mapsto>
          \<lparr>reminder_id = fresh, reminder_taskId = task_id task,
           reminder_message = generateReminderMessage task type,
           reminder_scheduledTime = reminderTime, reminder_priority = task_priority task,
           reminder_sent = False, reminder_type = type\<rparr>),
       next_ref := Suc (next_ref s),
       reminders := reminders s @ [next_ref s],
       activeTimers := (activeTimers s)(fresh \<mapsto>
          \<lparr>timer_delay = reminderTime - now env, timer_reminder = next_ref s\<rparr>)\<rparr>"
  using assms by (simp add: scheduleReminder_def scheduleNotification_def Let_def)

lemma calculateReminderTime_future: "now env < calculateReminderTime env task priority"
  by (simp add: calculateReminderTime_def Let_def minutes_ms_def)

lemma schedule_tasks_all:
  assumes "list_all (\<lambda>t. task_dueDate t \<noteq> None) tasks"
  shows "\<exists>s'. schedule_tasks env s fresh tasks =
           (map (\<lambda>t. t\<lparr>task_reminderTime :=
                          Some (calculateReminderTime env t (task_priority t))\<rparr>) tasks,
            s', fresh + length tasks) \<and>
         reminders s' = reminders s @ [next_ref s..<next_ref s + length tasks] \<and>
         next_ref s' = next_ref s + length tasks \<and>
         (\<forall>r<next_ref s. heap s' r = heap s r) \<and>
         map (\<lambda>r. map_option reminder_taskId (heap s' r))
           [next_ref s..<next_ref s + length tasks] = map (\<lambda>t. Some (task_id t)) tasks \<and>
         map (\<lambda>r. map_option reminder_id (heap s' r))
           [next_ref s..<next_ref s + length tasks] = map Some [fresh..<fresh + length tasks] \<and>
         map (heap s') [next_ref s..<next_ref s + length tasks] =
           map (\<lambda>p. Some (deadline_reminder env (fst p) (snd p)))
             (zip [fresh..<fresh + length tasks] tasks) \<and>
         map (activeTimers s') [fresh..<fresh + length tasks] =
           map (\<lambda>p. Some (deadline_timer env (fst p) (snd p)))
             (zip [next_ref s..<next_ref s + length tasks] tasks) \<and>
         (\<forall>i<fresh. activeTimers s' i = activeTimers s i) \<and>
         console s' = console s \<and> notifications s' = notifications s \<and> events s' = events s"
  using assms
proof (induction tasks arbitrary: s fresh)
  case Nil
  then show ?case by simp
next
  case (Cons t ts)
  from Cons.prems obtain d where d: "task_dueDate t = Some d" by auto
  let ?rt = "calculateReminderTime env t (task_priority t)"
  let ?t1 = "t\<lparr>task_reminderTime := Some ?rt\<rparr>"
  let ?s1 = "scheduleReminder env s fresh ?t1 ?rt Deadline"
  have s1: "?s1 = s\<lparr>heap := (heap s)(next_ref s \<mapsto>
          \<lparr>reminder_id = fresh, reminder_taskId = task_id ?t1,
           reminder_message = generateReminderMessage ?t1 Deadline,
           reminder_scheduledTime = ?rt, reminder_priority = task_priority ?t1,
           reminder_sent = False, reminder_type = Deadline\<rparr>),
       next_ref := Suc (next_ref s),
       reminders := reminders s @ [next_ref s],
       activeTimers := (activeTimers s)(fresh \<mapsto>
          \<lparr>timer_delay = ?rt - now env, timer_reminder = next_ref s\<rparr>)\<rparr>"
    by (rule scheduleReminder_future) (rule calculateReminderTime_future)
  have ts: "list_all (\<lambda>t. task_dueDate t \<noteq> None) ts" using Cons.prems by simp
  from Cons.IH [OF ts, of ?s1 "Suc fresh"] obtain s' where
    run: "schedule_tasks env ?s1 (Suc fresh) ts =
           (map (\<lambda>t. t\<lparr>task_reminderTime :=
                          Some (calculateReminderTime env t (task_priority t))\<rparr>) ts,
            s', Suc fresh + length ts)"
    and rem: "reminders s' = reminders ?s1 @ [next_ref ?s1..<next_ref ?s1 + length ts]"
    and nxt: "next_ref s' = next_ref ?s1 + length ts"
    and frame: "\<forall>r<next_ref ?s1. heap s' r = heap ?s1 r"
    and tids: "map (\<lambda>r. map_option reminder_taskId (heap s' r))
           [next_ref ?s1..<next_ref ?s1 + length ts] = map (\<lambda>t. Some (task_id t)) ts"
    and rids: "map (\<lambda>r. map_option reminder_id (heap s' r))
           [next_ref ?s1..<next_ref ?s1 + length ts] = map Some [Suc fresh..<Suc fresh + length ts]"
    and recs: "map (heap s') [next_ref ?s1..<next_ref ?s1 + length ts] =
           map (\<lambda>p. Some (deadline_reminder env (fst p) (snd p)))
             (zip [Suc fresh..<Suc fresh + length ts] ts)"
    and tms: "map (activeTimers s') [Suc fresh..<Suc fresh + length ts] =
           map (\<lambda>p. Some (deadline_timer env (fst p) (snd p)))
             (zip [next_ref ?s1..<next_ref ?s1 + length ts] ts)"
    and tframe: "\<forall>i<Suc fresh. activeTimers s' i = activeTimers ?s1 i"
    and sinks: "console s' = console ?s1" "notifications s' = notifications ?s1"
      "events s' = events ?s1"
    by blast
  have n1: "next_ref ?s1 = Suc (next_ref s)" by (simp add: s1)
  have r1: "reminders ?s1 = reminders s @ [next_ref s]" by (simp add: s1)
  have h1: "heap ?s1 (next_ref s) = Some
          \<lparr>reminder_id = fresh, reminder_taskId = task_id ?t1,
           reminder_message = generateReminderMessage ?t1 Deadline,
           reminder_scheduledTime = ?rt, reminder_priority = task_priority ?t1,
           reminder_sent = False, reminder_type = Deadline\<rparr>" by (simp add: s1)
  have h1': "\<forall>r<next_ref s. heap ?s1 r = heap s r" by (simp add: s1)
  have here: "heap s' (next_ref s) = heap ?s1 (next_ref s)"
    using frame n1 by simp
  have upt: "[next_ref s..<next_ref s + length (t # ts)] =
             next_ref s # [Suc (next_ref s)..<Suc (next_ref s) + length ts]"
    using upt_shift [of "next_ref s" "length ts"] by simp
  have upt': "[fresh..<fresh + length (t # ts)] = fresh # [Suc fresh..<Suc fresh + length ts]"
    using upt_shift [of fresh "length ts"] by simp
  have step: "schedule_tasks env s fresh (t # ts) =
      (map (\<lambda>t. t\<lparr>task_reminderTime :=
                          Some (calculateReminderTime env t (task_priority t))\<rparr>) (t # ts),
       s', fresh + length (t # ts))"
    using d run by (simp add: Let_def)
  have c2: "reminders s' = reminders s @ [next_ref s..<next_ref s + length (t # ts)]"
    unfolding upt using rem by (simp add: n1 r1)
  have c3: "next_ref s' = next_ref s + length (t # ts)" using nxt n1 by simp
  have c4: "\<forall>r<next_ref s. heap s' r = heap s r" using frame h1' n1 by simp
  have c5: "map (\<lambda>r. map_option reminder_taskId (heap s' r))
           [next_ref s..<next_ref s + length (t # ts)] = map (\<lambda>t. Some (task_id t)) (t # ts)"
    unfolding upt using tids here h1 by (simp add: n1)
  have c6: "map (\<lambda>r. map_option reminder_id (heap s' r))
           [next_ref s..<next_ref s + length (t # ts)] = map Some [fresh..<fresh + length (t # ts)]"
    unfolding upt upt' using rids here h1 by (simp add: n1)
  have rec1: "heap s' (next_ref s) = Some (deadline_reminder env fresh t)"
    using here h1
    by (simp add: deadline_reminder_def generateReminderMessage_def preparation_message_def
        followup_message_def deadline_message_def)
  have tm1: "activeTimers s' fresh = Some (deadline_timer env (next_ref s) t)"
    using tframe by (simp add: s1 deadline_timer_def)
  have c7: "map (heap s') [next_ref s..<next_ref s + length (t # ts)] =
           map (\<lambda>p. Some (deadline_reminder env (fst p) (snd p)))
             (zip [fresh..<fresh + length (t # ts)] (t # ts))"
    unfolding upt upt' using recs rec1 by (simp add: n1)
  have c8: "map (activeTimers s') [fresh..<fresh + length (t # ts)] =
           map (\<lambda>p. Some (deadline_timer env (fst p) (snd p)))
             (zip [next_ref s..<next_ref s + length (t # ts)] (t # ts))"
    unfolding upt upt' using tms tm1 by (simp add: n1)
  have c9: "\<forall>i<fresh. activeTimers s' i = activeTimers s i"
    using tframe by (simp add: s1)
  have c10: "console s' = console s" "notifications s' = notifications s" "events s' = events s"
    using sinks by (simp_all add: s1)
  from step c2 c3 c4 c5 c6 c7 c8 c9 c10 show ?case by blast
qed

lemma calculateReminderTime_reminderTime:
  "calculateReminderTime env (t\<lparr>task_reminderTime := x\<rparr>) p = calculateReminderTime env t p"
  by (simp add: calculateReminderTime_def dueDate_or_default_def)

lemma count_distinct:
  assumes "distinct xs" "x \<in> set xs"
  shows "length (filter (\<lambda>y. y = x) xs) = 1"
  using assms by (induction xs) (auto simp: filter_empty_conv)

lemma make_tasks_due:
  assumes "list_all (\<lambda>item. item_dueDate item \<noteq> None) items"
  shows "list_all (\<lambda>t. task_dueDate t \<noteq> None) (make_tasks env rag fresh items)"
  using assms by (induction items arbitrary: fresh) (simp_all add: make_task_def)

lemma deadline_reminder_reminderTime:
  "deadline_reminder env rid (t\<lparr>task_reminderTime := x\<rparr>) = deadline_reminder env rid t"
  by (simp add: deadline_reminder_def calculateReminderTime_reminderTime
      generateReminderMessage_def preparation_message_def followup_message_def
      deadline_message_def)

lemma deadline_timer_reminderTime:
  "deadline_timer env r (t\<lparr>task_reminderTime := x\<rparr>) = deadline_timer env r t"
  by (simp add: deadline_timer_def calculateReminderTime_reminderTime)

lemma generateTaskRecommendations_run:
  assumes "processUserInput store input = Some rag"
  shows "\<exists>s'. generateTaskRecommendations env store s fresh input =
           Some (map (\<lambda>t. t\<lparr>task_reminderTime :=
                                 Some (calculateReminderTime env t (task_priority t))\<rparr>)
                   (make_tasks env rag fresh (extractActionItems env (response rag) input)),
                 s', fresh + 2 * length (extractActionItems env (response rag) input)) \<and>
         reminders s' = reminders s @
           [next_ref s..<next_ref s + length (extractActionItems env (response rag) input)] \<and>
         map (\<lambda>r. map_option reminder_taskId (heap s' r))
           [next_ref s..<next_ref s + length (extractActionItems env (response rag) input)] =
         map Some [fresh..<fresh + length (extractActionItems env (response rag) input)] \<and>
         map (heap s')
           [next_ref s..<next_ref s + length (extractActionItems env (response rag) input)] =
         map (\<lambda>p. Some (deadline_reminder env (fst p) (snd p)))
           (zip [fresh + length (extractActionItems env (response rag) input)..<
                 fresh + 2 * length (extractActionItems env (response rag) input)]
              (make_tasks env rag fresh (extractActionItems env (response rag) input))) \<and>
         map (activeTimers s')
           [fresh + length (extractActionItems env (response rag) input)..<
            fresh + 2 * length (extractActionItems env (response rag) input)] =
         map (\<lambda>p. Some (deadline_timer env (fst p) (snd p)))
           (zip [next_ref s..<next_ref s + length (extractActionItems env (response rag) input)]
              (make_tasks env rag fresh (extractActionItems env (response rag) input))) \<and>
         console s' = console s \<and> notifications s' = notifications s \<and> events s' = events s"
proof -
  let ?items = "extractActionItems env (response rag) input"
  let ?tasks = "make_tasks env rag fresh ?items"
  have due: "list_all (\<lambda>t. task_dueDate t \<noteq> None) ?tasks"
    using extractActionItems_due by (rule make_tasks_due)
  have len: "length ?tasks = length ?items" by (rule length_make_tasks)
  from schedule_tasks_all [OF due, of env s "fresh + length ?items"] obtain s' where
    run: "schedule_tasks env s (fresh + length ?items) ?tasks =
           (map (\<lambda>t. t\<lparr>task_reminderTime :=
                          Some (calculateReminderTime env t (task_priority t))\<rparr>) ?tasks,
            s', fresh + length ?items + length ?tasks)"
    and rem: "reminders s' = reminders s @ [next_ref s..<next_ref s + length ?tasks]"
    and tids: "map (\<lambda>r. map_option reminder_taskId (heap s' r))
           [next_ref s..<next_ref s + length ?tasks] = map (\<lambda>t. Some (task_id t)) ?tasks"
    and recs: "map (heap s') [next_ref s..<next_ref s + length ?tasks] =
           map (\<lambda>p. Some (deadline_reminder env (fst p) (snd p)))
             (zip [fresh + length ?items..<fresh + length ?items + length ?tasks] ?tasks)"
    and tms: "map (activeTimers s') [fresh + length ?items..<fresh + length ?items + length ?tasks] =
           map (\<lambda>p. Some (deadline_timer env (fst p) (snd p)))
             (zip [next_ref s..<next_ref s + length ?tasks] ?tasks)"
    and sinks: "console s' = console s" "notifications s' = notifications s"
      "events s' = events s"
    by blast
  have two: "fresh + length ?items + length ?items = fresh + 2 * length ?items" by simp
  have "map (\<lambda>t. Some (task_id t)) ?tasks = map Some (map task_id ?tasks)"
    by (simp add: comp_def)
  then have ids: "map (\<lambda>t. Some (task_id t)) ?tasks = map Some [fresh..<fresh + length ?items]"
    by (simp only: ids_make_tasks)
  have "generateTaskRecommendations env store s fresh input =
          Some (map (\<lambda>t. t\<lparr>task_reminderTime :=
                          Some (calculateReminderTime env t (task_priority t))\<rparr>) ?tasks,
                s', fresh + 2 * length ?items)"
    using assms run len by (simp add: generateTaskRecommendations_def Let_def)
  with rem tids ids len recs tms sinks two show ?thesis by (intro exI [of _ s']) simp
qed

text \<open>
  Claim C10. \<open>generateTaskRecommendations\<close> always returns, with at least one task.
  Every returned task carries a due date and has its reminder time set, to the value of
  \<open>calculateReminderTime\<close>, which is after \<open>now\<close>. The tasks have distinct ids. The
  call appends one reminder per task to the reminders of the service, in the order of
  the tasks and with the ids of the tasks, so that exactly one of the new reminders
  belongs to each returned task. Each of these reminders is of type deadline, not yet
  sent, set for the reminder time of its task and carries the task's priority; for each
  of them one timer is armed under the id of the reminder, with the delay from \<open>now\<close>
  to the reminder time, whose callback sends that reminder. Nothing is sent during the
  call.
\<close>

theorem generateTaskRecommendations_reminders:
  "\<exists>tasks s'.
     generateTaskRecommendations env store s fresh input =
       Some (tasks, s', fresh + 2 * length tasks) \<and>
     tasks \<noteq> [] \<and>
     list_all (\<lambda>t. task_dueDate t \<noteq> None \<and>
                   task_reminderTime t = Some (calculateReminderTime env t (task_priority t))) tasks \<and>
     distinct (map task_id tasks) \<and>
     getAllReminders s' = getAllReminders s @ [next_ref s..<next_ref s + length tasks] \<and>
     map (\<lambda>r. map_option reminder_taskId (heap s' r)) [next_ref s..<next_ref s + length tasks] =
       map (\<lambda>t. Some (task_id t)) tasks \<and>
     list_all (\<lambda>t. length (filter (\<lambda>r. map_option reminder_taskId (heap s' r) = Some (task_id t))
                              [next_ref s..<next_ref s + length tasks]) = 1) tasks \<and>
     list_all (\<lambda>t. now env < calculateReminderTime env t (task_priority t)) tasks \<and>
     map (heap s') [next_ref s..<next_ref s + length tasks] =
       map (\<lambda>p. Some \<lparr>reminder_id = fst p,
                         reminder_taskId = task_id (snd p),
                         reminder_message = generateReminderMessage (snd p) Deadline,
                         reminder_scheduledTime =
                           calculateReminderTime env (snd p) (task_priority (snd p)),
                         reminder_priority = task_priority (snd p),
                         reminder_sent = False,
                         reminder_type = Deadline\<rparr>)
         (zip [fresh + length tasks..<fresh + 2 * length tasks] tasks) \<and>
     map (activeTimers s') [fresh + length tasks..<fresh + 2 * length tasks] =
       map (\<lambda>p. Some \<lparr>timer_delay =
                           calculateReminderTime env (snd p) (task_priority (snd p)) - now env,
                         timer_reminder = fst p\<rparr>)
         (zip [next_ref s..<next_ref s + length tasks] tasks) \<and>
     console s' = console s \<and> notifications s' = notifications s \<and> events s' = events s"
proof -
  obtain rag where rag: "processUserInput store input = Some rag"
    using processUserInput_total by blast
  let ?items = "extractActionItems env (response rag) input"
  let ?raw = "make_tasks env rag fresh ?items"
  let ?tasks = "map (\<lambda>t. t\<lparr>task_reminderTime :=
                          Some (calculateReminderTime env t (task_priority t))\<rparr>) ?raw"
  let ?refs = "[next_ref s..<next_ref s + length ?tasks]"
  from generateTaskRecommendations_run [OF rag, of env s fresh] obtain s' where
    run: "generateTaskRecommendations env store s fresh input =
            Some (?tasks, s', fresh + 2 * length ?items)"
    and rem: "reminders s' = reminders s @ [next_ref s..<next_ref s + length ?items]"
    and tids: "map (\<lambda>r. map_option reminder_taskId (heap s' r))
                 [next_ref s..<next_ref s + length ?items] =
               map Some [fresh..<fresh + length ?items]"
    and recs: "map (heap s') [next_ref s..<next_ref s + length ?items] =
               map (\<lambda>p. Some (deadline_reminder env (fst p) (snd p)))
                 (zip [fresh + length ?items..<fresh + 2 * length ?items] ?raw)"
    and tms: "map (activeTimers s') [fresh + length ?items..<fresh + 2 * length ?items] =
               map (\<lambda>p. Some (deadline_timer env (fst p) (snd p)))
                 (zip [next_ref s..<next_ref s + length ?items] ?raw)"
    and sinks: "console s' = console s" "notifications s' = notifications s"
      "events s' = events s"
    by blast
  have len: "length ?tasks = length ?items" by (simp add: length_make_tasks)
  have ne: "?tasks \<noteq> []" using extractActionItems_nonempty [of env "response rag" input] len
    by (metis length_0_conv)
  have ids: "map task_id ?tasks = [fresh..<fresh + length ?items]"
    using ids_make_tasks [of env rag fresh ?items] by (simp add: comp_def)
  have dist: "distinct (map task_id ?tasks)" unfolding ids by simp
  have due: "list_all (\<lambda>t. task_dueDate t \<noteq> None) ?raw"
    using extractActionItems_due by (rule make_tasks_due)
  have fields: "list_all (\<lambda>t. task_dueDate t \<noteq> None \<and>
                   task_reminderTime t = Some (calculateReminderTime env t (task_priority t))) ?tasks"
    using due by (simp add: list_all_iff calculateReminderTime_reminderTime)
  have tids': "map (\<lambda>r. map_option reminder_taskId (heap s' r)) ?refs =
               map (\<lambda>t. Some (task_id t)) ?tasks"
  proof -
    have "map (\<lambda>t. Some (task_id t)) ?tasks = map Some (map task_id ?tasks)" by simp
    then show ?thesis unfolding ids using tids len by simp
  qed
  have one: "list_all (\<lambda>t. length (filter (\<lambda>r. map_option reminder_taskId (heap s' r) = Some (task_id t))
                              ?refs) = 1) ?tasks"
  proof -
    have "length (filter (\<lambda>r. map_option reminder_taskId (heap s' r) = Some (task_id t)) ?refs) = 1"
      if t: "t \<in> set ?tasks" for t
    proof -
      let ?f = "\<lambda>r. map_option reminder_taskId (heap s' r)"
      have "length (filter (\<lambda>r. ?f r = Some (task_id t)) ?refs) =
            length (filter (\<lambda>y. y = Some (task_id t)) (map ?f ?refs))"
        by (simp add: filter_map comp_def)
      also have "\<dots> = length (filter (\<lambda>y. y = Some (task_id t)) (map Some (map task_id ?tasks)))"
        using tids' by (simp add: comp_def)
      also have "\<dots> = 1"
      proof (rule count_distinct)
        show "distinct (map Some (map task_id ?tasks))"
          unfolding ids by (simp add: distinct_map)
        show "Some (task_id t) \<in> set (map Some (map task_id ?tasks))"
          using t by auto
      qed
      finally show ?thesis .
    qed
    then show ?thesis by (simp add: list_all_iff)
  qed
  have run': "generateTaskRecommendations env store s fresh input =
            Some (?tasks, s', fresh + 2 * length ?tasks)"
    using run len by simp
  have rem': "getAllReminders s' = getAllReminders s @ ?refs"
    using rem len by (simp add: getAllReminders_def)
  have future: "list_all (\<lambda>t. now env < calculateReminderTime env t (task_priority t)) ?tasks"
    by (simp add: list_all_iff calculateReminderTime_future)
  have recs': "map (heap s') ?refs =
       map (\<lambda>p. Some \<lparr>reminder_id = fst p,
                         reminder_taskId = task_id (snd p),
                         reminder_message = generateReminderMessage (snd p) Deadline,
                         reminder_scheduledTime =
                           calculateReminderTime env (snd p) (task_priority (snd p)),
                         reminder_priority = task_priority (snd p),
                         reminder_sent = False,
                         reminder_type = Deadline\<rparr>)
         (zip [fresh + length ?tasks..<fresh + 2 * length ?tasks] ?tasks)"
  proof -
    have "map (\<lambda>p. Some (deadline_reminder env (fst p) (snd p)))
            (zip [fresh + length ?items..<fresh + 2 * length ?items] ?tasks) =
          map (\<lambda>p. Some (deadline_reminder env (fst p) (snd p)))
            (zip [fresh + length ?items..<fresh + 2 * length ?items] ?raw)"
      by (simp add: zip_map2 comp_def case_prod_beta deadline_reminder_reminderTime)
    then have "map (heap s') ?refs =
          map (\<lambda>p. Some (deadline_reminder env (fst p) (snd p)))
            (zip [fresh + length ?tasks..<fresh + 2 * length ?tasks] ?tasks)"
      using recs by (simp only: len)
    then show ?thesis by (simp only: deadline_reminder_def)
  qed
  have tms': "map (activeTimers s') [fresh + length ?tasks..<fresh + 2 * length ?tasks] =
       map (\<lambda>p. Some \<lparr>timer_delay =
                           calculateReminderTime env (snd p) (task_priority (snd p)) - now env,
                         timer_reminder = fst p\<rparr>)
         (zip ?refs ?tasks)"
  proof -
    have "map (\<lambda>p. Some (deadline_timer env (fst p) (snd p)))
            (zip [next_ref s..<next_ref s + length ?items] ?tasks) =
          map (\<lambda>p. Some (deadline_timer env (fst p) (snd p)))
            (zip [next_ref s..<next_ref s + length ?items] ?raw)"
      by (simp add: zip_map2 comp_def case_prod_beta deadline_timer_reminderTime)
    then have "map (activeTimers s') [fresh + length ?tasks..<fresh + 2 * length ?tasks] =
          map (\<lambda>p. Some (deadline_timer env (fst p) (snd p))) (zip ?refs ?tasks)"
      using tms by (simp only: len)
    then show ?thesis by (simp only: deadline_timer_def)
  qed
  from run' ne fields dist rem' tids' one future recs' tms' sinks show ?thesis by blast
qed

section \<open>Urgent inputs\<close>

lemma processUserInput_no_rules:
  "processUserInput VectorStore_new input =
     Some \<lparr>response = no_rules_response, relevantRules = [], confidence = Num 0\<rparr>"
  by (simp add: processUserInput_def searchSimilar_def VectorStore_new_def score_rules_def
      js_sort_def js_slice0_def)

lemma items_urgent_today:
  "extractActionItems env0 no_rules_response ''urgent deadline for project due today'' =
  [\<lparr>item_content = ''Handle: urgent deadline for project due today'',
     item_priority = High, item_dueDate = Some 1015200000\<rparr>]"
  by code_simp

lemma items_immediately:
  "extractActionItems env0 no_rules_response ''do it immediately'' =
  [\<lparr>item_content = ''Handle: do it immediately'', item_priority = Low,
     item_dueDate = Some 1086400000\<rparr>]"
  by code_simp

text \<open>
  Claim C6 as stated fails. With no rule in the store, the input
  \<open>urgent deadline for project due today\<close> gives one task of priority high whose due
  date is 18:00 of the day, not \<open>now\<close> plus 30 minutes; and the input
  \<open>do it immediately\<close>, which contains urgent vocabulary, gives one task of priority
  low due in 24 hours.
\<close>

theorem urgent_default_task_counterexample:
  "map_option (\<lambda>res. map (\<lambda>t. (task_priority t, task_dueDate t)) (fst res))
     (generateTaskRecommendations env0 VectorStore_new ReminderService_new 0
        ''urgent deadline for project due today'') = Some [(High, Some 1015200000)] \<and>
   now env0 + minutes_ms 30 = 1001800000 \<and>
   rx_test urgent_rx ''do it immediately'' \<and>
   map_option (\<lambda>res. map (\<lambda>t. (task_priority t, task_dueDate t)) (fst res))
     (generateTaskRecommendations env0 VectorStore_new ReminderService_new 0
        ''do it immediately'') = Some [(Low, Some 1086400000)]"
proof -
  have a: "map_option (\<lambda>res. map (\<lambda>t. (task_priority t, task_dueDate t)) (fst res))
     (generateTaskRecommendations env0 VectorStore_new ReminderService_new 0
        ''urgent deadline for project due today'') = Some [(High, Some 1015200000)]"
    using generateTaskRecommendations_run
        [OF processUserInput_no_rules [of "''urgent deadline for project due today''"],
         of env0 ReminderService_new 0]
    by (auto simp: items_urgent_today make_task_def)
  have b: "map_option (\<lambda>res. map (\<lambda>t. (task_priority t, task_dueDate t)) (fst res))
     (generateTaskRecommendations env0 VectorStore_new ReminderService_new 0
        ''do it immediately'') = Some [(Low, Some 1086400000)]"
    using generateTaskRecommendations_run
        [OF processUserInput_no_rules [of "''do it immediately''"],
         of env0 ReminderService_new 0]
    by (auto simp: items_immediately make_task_def)
  have c: "now env0 + minutes_ms 30 = 1001800000" by (simp add: env0_def minutes_ms_def)
  have d: "rx_test urgent_rx ''do it immediately''" by code_simp
  from a b c d show ?thesis by simp
qed

lemma fields_scheduled:
  "map (\<lambda>t. (task_content t, task_priority t, task_dueDate t))
     (map (\<lambda>t. t\<lparr>task_reminderTime := Some (calculateReminderTime env t (task_priority t))\<rparr>)
        (make_tasks env rag fresh items)) =
   map (\<lambda>item. (item_content item, item_priority item, item_dueDate item)) items"
  using fields_make_tasks [of env rag fresh items] by (simp add: comp_def)

text \<open>
  Claim C6, amended. For an input that contains the urgent vocabulary,
  \<open>generateTaskRecommendations\<close> returns; when the response contains an action verb
  (reschedule, change time, cancel, skip, check, verify), every task has priority high and
  the due date \<open>now\<close> plus 30 minutes; otherwise there is the one default task
  \<open>Handle: input\<close>, made after the override, with the priority of
  \<open>calculateDefaultPriority\<close> and the due date extracted from the input, or \<open>now\<close>
  plus 24 hours when there is none.
\<close>

theorem urgent_input_tasks:
  assumes "rx_test urgent_rx input"
  shows "\<exists>rag tasks s'.
      processUserInput store input = Some rag \<and>
      generateTaskRecommendations env store s fresh input =
        Some (tasks, s', fresh + 2 * length tasks) \<and>
      (if mentions_action (response rag)
       then list_all (\<lambda>t. task_priority t = High \<and>
                          task_dueDate t = Some (now env + minutes_ms 30)) tasks
       else map (\<lambda>t. (task_content t, task_priority t, task_dueDate t)) tasks =
            [(''Handle: '' @ input,
              calculateDefaultPriority env input (extractDueDate env input),
              Some (or_default (extractDueDate env input) (now env + hours_ms 24)))])"
proof -
  obtain rag where rag: "processUserInput store input = Some rag"
    using processUserInput_total by blast
  let ?items = "extractActionItems env (response rag) input"
  let ?tasks = "map (\<lambda>t. t\<lparr>task_reminderTime :=
                          Some (calculateReminderTime env t (task_priority t))\<rparr>)
                  (make_tasks env rag fresh ?items)"
  from generateTaskRecommendations_run [OF rag, of env s fresh] obtain s' where
    run: "generateTaskRecommendations env store s fresh input =
            Some (?tasks, s', fresh + 2 * length ?items)"
    by blast
  have len: "length ?tasks = length ?items" by (simp add: length_make_tasks)
  have run': "generateTaskRecommendations env store s fresh input =
            Some (?tasks, s', fresh + 2 * length ?tasks)"
    using run len by simp
  have fields: "map (\<lambda>t. (task_content t, task_priority t, task_dueDate t)) ?tasks =
                map (\<lambda>item. (item_content item, item_priority item, item_dueDate item)) ?items"
    by (rule fields_scheduled)
  have concl: "if mentions_action (response rag)
       then list_all (\<lambda>t. task_priority t = High \<and>
                          task_dueDate t = Some (now env + minutes_ms 30)) ?tasks
       else map (\<lambda>t. (task_content t, task_priority t, task_dueDate t)) ?tasks =
            [(''Handle: '' @ input,
              calculateDefaultPriority env input (extractDueDate env input),
              Some (or_default (extractDueDate env input) (now env + hours_ms 24)))]"
  proof (cases "mentions_action (response rag)")
    case True
    let ?d = "drafted_items env (response rag) (isUrgentTimeframe input) (extractDueDate env input)"
    have items: "?items = map (\<lambda>item. item\<lparr>item_priority := High,
                              item_dueDate := Some (now env + minutes_ms 30)\<rparr>) ?d"
      using extractActionItems_urgent [OF assms, of env "response rag"] True by simp
    have "list_all (\<lambda>p. fst (snd p) = High \<and> snd (snd p) = Some (now env + minutes_ms 30))
            (map (\<lambda>item. (item_content item, item_priority item, item_dueDate item)) ?items)"
      unfolding items by (simp add: list_all_iff)
    then have "list_all (\<lambda>p. fst (snd p) = High \<and> snd (snd p) = Some (now env + minutes_ms 30))
            (map (\<lambda>t. (task_content t, task_priority t, task_dueDate t)) ?tasks)"
      by (simp only: fields)
    then have "list_all (\<lambda>t. task_priority t = High \<and>
                          task_dueDate t = Some (now env + minutes_ms 30)) ?tasks"
      by (simp add: list_all_iff)
    then show ?thesis using True by simp
  next
    case False
    have items: "?items = [\<lparr>item_content = ''Handle: '' @ input,
             item_priority = calculateDefaultPriority env input (extractDueDate env input),
             item_dueDate = Some (or_default (extractDueDate env input) (now env + hours_ms 24))\<rparr>]"
      using extractActionItems_urgent [OF assms, of env "response rag"] False by simp
    have "map (\<lambda>t. (task_content t, task_priority t, task_dueDate t)) ?tasks =
            [(''Handle: '' @ input,
              calculateDefaultPriority env input (extractDueDate env input),
              Some (or_default (extractDueDate env input) (now env + hours_ms 24)))]"
      unfolding fields by (simp add: items)
    then show ?thesis using False by simp
  qed
  from rag run' concl show ?thesis by blast
qed

lemma no_time_reference_urgent: "\<not> containsTimeConflict ''urgent'' rs"
proof -
  have "\<not> rx_test (Alt (Seq digits1 (Seq (Lit '':'') digits1))
                    (Alt (Seq digits1 (Seq spaces0 (Grp 1 (alts ''am'' [''pm'']))))
                         (alts ''tomorrow'' [''today'', ''yesterday'']))) ''urgent''"
    by code_simp
  then show ?thesis by (simp add: containsTimeConflict_def Let_def)
qed

lemma check_no_priority_rule: "\<not> rx_test priority_rule_rx ''check''"
  by code_simp

lemma check_response_mentions_action:
  "mentions_action (''Based on the rule: '' @ dquote @ ''check'' @ dquote @
                '', here's what I recommend: '' @ newline @
                ''    Follow this guideline for your situation.'')"
  by code_simp

lemma urgent_is_urgent: "rx_test urgent_rx ''urgent''"
  by code_simp

lemma generateResponse_check_rule:
  assumes "rule_content r = ''check''"
  shows "generateResponse ''urgent'' [r] =
     Some (''Based on the rule: '' @ dquote @ ''check'' @ dquote @
                '', here's what I recommend: '' @ newline @
                ''    Follow this guideline for your situation.'')"
proof -
  have "\<not> containsPriorityConflict ''urgent'' [r]"
    using assms check_no_priority_rule
    by (simp add: containsPriorityConflict_def Let_def del: rx_test.simps)
  then show ?thesis
    using assms no_time_reference_urgent [of "[r]"]
    by (simp add: generateResponse_def generateBasicResponse_def del: rx_test.simps)
qed

lemma processUserInput_response:
  assumes "searchSimilar store input 3 \<noteq> []"
  shows "map_option response (processUserInput store input) =
         generateResponse input (map fst (searchSimilar store input 3))"
  using assms by (simp add: processUserInput_def Let_def split: option.splits)

lemma processUserInput_check_rule:
  "map_option response (processUserInput (addRules VectorStore_new [check_rule]) ''urgent'') =
     Some (''Based on the rule: '' @ dquote @ ''check'' @ dquote @
                '', here's what I recommend: '' @ newline @
                ''    Follow this guideline for your situation.'')"
proof -
  let ?store = "addRules VectorStore_new [check_rule]"
  let ?r = "check_rule\<lparr>rule_embedding := Some (generateEmbedding (rule_content check_rule))\<rparr>"
  have found: "searchSimilar ?store ''urgent'' 3 =
      [(?r, cosineSimilarity (generateEmbedding ''urgent'')
              (generateEmbedding (rule_content check_rule)))]"
    by (simp add: searchSimilar_addRules js_sort_def js_slice0_def)
  have "rule_content ?r = ''check''" by (simp add: check_rule_def)
  then have gen: "generateResponse ''urgent'' [?r] =
     Some (''Based on the rule: '' @ dquote @ ''check'' @ dquote @
                '', here's what I recommend: '' @ newline @
                ''    Follow this guideline for your situation.'')"
    by (rule generateResponse_check_rule)
  have "map_option response (processUserInput ?store ''urgent'') =
        generateResponse ''urgent'' (map fst (searchSimilar ?store ''urgent'' 3))"
    by (rule processUserInput_response) (simp only: found list.distinct not_False_eq_True)
  also have "map fst (searchSimilar ?store ''urgent'' 3) = [?r]"
    by (simp only: found list.map fst_conv)
  finally show ?thesis by (simp only: gen)
qed

text \<open>
  The input \<open>urgent\<close> against the one rule \<open>check\<close>: the response quotes the rule, so
  it contains an action verb, and every task is of priority high and due in 30 minutes.
\<close>

theorem urgent_input_tasks_witness:
  "\<exists>tasks s'.
      generateTaskRecommendations env0 (addRules VectorStore_new [check_rule])
        ReminderService_new 0 ''urgent'' = Some (tasks, s', 2 * length tasks) \<and>
      list_all (\<lambda>t. task_priority t = High \<and>
                     task_dueDate t = Some (now env0 + minutes_ms 30)) tasks"
proof -
  from urgent_input_tasks [OF urgent_is_urgent,
      of "addRules VectorStore_new [check_rule]" env0 ReminderService_new 0]
  obtain rag tasks s' where
    rag: "processUserInput (addRules VectorStore_new [check_rule]) ''urgent'' = Some rag"
    and run: "generateTaskRecommendations env0 (addRules VectorStore_new [check_rule])
        ReminderService_new 0 ''urgent'' = Some (tasks, s', 0 + 2 * length tasks)"
    and c: "if mentions_action (response rag)
       then list_all (\<lambda>t. task_priority t = High \<and>
                          task_dueDate t = Some (now env0 + minutes_ms 30)) tasks
       else map (\<lambda>t. (task_content t, task_priority t, task_dueDate t)) tasks =
            [(''Handle: '' @ ''urgent'',
              calculateDefaultPriority env0 ''urgent'' (extractDueDate env0 ''urgent''),
              Some (or_default (extractDueDate env0 ''urgent'') (now env0 + hours_ms 24)))]"
    by blast
  have "mentions_action (response rag)"
    using processUserInput_check_rule rag check_response_mentions_action by simp
  with c run show ?thesis by auto
qed

end
